theory Spec2Isabelle
  imports Main
begin

section \<open>Time and durations (Go package time)\<close>

text \<open>
  An instant is a number of nanoseconds on the wall clock; a \<open>time.Duration\<close> is an
  \<open>int64\<close> count of nanoseconds. \<open>Time.Sub\<close> saturates at the ends of the
  \<open>int64\<close> range, and arithmetic on durations wraps around.
\<close>

type_synonym time = int
type_synonym Duration = int

definition minDuration :: Duration where
  "minDuration = - (2 ^ 63)"

definition maxDuration :: Duration where
  "maxDuration = 2 ^ 63 - 1"

definition wrap64 :: "int \<Rightarrow> int" where
  "wrap64 x = (x + 2 ^ 63) mod 2 ^ 64 - 2 ^ 63"

definition Second :: Duration where
  "Second = 1000000000"

definition Minute :: Duration where
  "Minute = 60 * Second"

definition time_Sub :: "time \<Rightarrow> time \<Rightarrow> Duration" where
  "time_Sub t u =
     (if t - u < minDuration then minDuration
      else if maxDuration < t - u then maxDuration
      else t - u)"

text \<open>
  The clock is an input of the program. A \<open>clock\<close> gives the successive readings that
  the watchdog's own calls of \<open>time.Now\<close> and \<open>time.Since\<close> take; the number of
  readings taken so far is threaded through every function that reads it.
  \<open>time.Since(t)\<close> is \<open>time.Now().Sub(t)\<close>. Wall-clock and monotonic readings
  are not told apart, and the time stamps that the logger puts before each line are not
  part of the model.
\<close>

type_synonym clock = "nat \<Rightarrow> time"

definition time_Now :: "clock \<Rightarrow> nat \<Rightarrow> time \<times> nat" where
  "time_Now clk n = (clk n, Suc n)"

definition time_Since :: "clock \<Rightarrow> nat \<Rightarrow> time \<Rightarrow> Duration \<times> nat" where
  "time_Since clk n t = (case time_Now clk n of (now, n') \<Rightarrow> (time_Sub now t, n'))"


section \<open>The pod snapshot (k8s.io/api/core/v1)\<close>

text \<open>
  Only the fields the watchdog reads. \<open>Phase\<close> and the waiting reason are strings in
  the API types. Each of the three states of a container is a pointer that may be nil.
  \<open>pod.Status.Phase\<close> and \<open>pod.Status.ContainerStatuses\<close> are fields of the pod
  record here.
\<close>

record ContainerStateWaiting =
  Reason :: string

record ContainerStateRunning =
  StartedAt :: time

record ContainerStateTerminated =
  ExitCode :: int

record ContainerState =
  Waiting :: "ContainerStateWaiting option"
  Running :: "ContainerStateRunning option"
  Terminated :: "ContainerStateTerminated option"

record ContainerStatus =
  State :: ContainerState
  Ready :: bool

record Pod =
  Name :: string
  Namespace :: string
  CreationTimestamp :: time
  Phase :: string
  ContainerStatuses :: "ContainerStatus list"

definition PodPending :: string where "PodPending = ''Pending''"
definition PodRunning :: string where "PodRunning = ''Running''"
definition PodSucceeded :: string where "PodSucceeded = ''Succeeded''"
definition PodFailed :: string where "PodFailed = ''Failed''"
definition PodUnknown :: string where "PodUnknown = ''Unknown''"


section \<open>The inspector\<close>

text \<open>
  \<open>reasonsToWatch\<close> is a Go \<open>map[string]bool\<close>; indexing it with a key it does not
  hold gives \<open>false\<close>.
\<close>

definition reasonsToWatch :: "string \<rightharpoonup> bool" where
  "reasonsToWatch =
     map_of [(''ContainerCreating'', True),
             (''ErrImagePull'', True),
             (''ImagePullBackOff'', True),
             (''CrashLoopBackOff'', True),
             (''CreateContainerConfigError'', True)]"

definition index_bool :: "(string \<rightharpoonup> bool) \<Rightarrow> string \<Rightarrow> bool" where
  "index_bool m k = (case m k of None \<Rightarrow> False | Some b \<Rightarrow> b)"

text \<open>
  The two \<open>if\<close> blocks of the loop body of \<open>shouldRestartPod\<close>. Each gives the reason
  it returns with, or \<open>None\<close> when control falls through, and the number of clock
  readings taken: the clock is read only where the source reaches \<open>time.Since\<close>.
\<close>

definition waitingBlock ::
  "Pod \<Rightarrow> Duration \<Rightarrow> clock \<Rightarrow> ContainerStatus \<Rightarrow> nat \<Rightarrow> string option \<times> nat" where
  "waitingBlock pod timeout clk cs n =
     (case Waiting (State cs) of
        None \<Rightarrow> (None, n)
      | Some w \<Rightarrow>
          if index_bool reasonsToWatch (Reason w)
          then (case time_Since clk n (CreationTimestamp pod) of
                  (d, n') \<Rightarrow> (if d > timeout then Some (Reason w) else None, n'))
          else (None, n))"

definition runningBlock ::
  "Duration \<Rightarrow> clock \<Rightarrow> ContainerStatus \<Rightarrow> nat \<Rightarrow> string option \<times> nat" where
  "runningBlock timeout clk cs n =
     (case Running (State cs) of
        None \<Rightarrow> (None, n)
      | Some r \<Rightarrow>
          if \<not> Ready cs
          then (case time_Since clk n (StartedAt r) of
                  (d, n') \<Rightarrow> (if d > timeout then Some ''RunningNotReady'' else None, n'))
          else (None, n))"

fun containersLoop ::
  "Pod \<Rightarrow> Duration \<Rightarrow> clock \<Rightarrow> ContainerStatus list \<Rightarrow> nat \<Rightarrow> (bool \<times> string) \<times> nat" where
  "containersLoop pod timeout clk [] n = ((False, ''''), n)"
| "containersLoop pod timeout clk (cs # rest) n =
     (case waitingBlock pod timeout clk cs n of
        (Some r, n1) \<Rightarrow> ((True, r), n1)
      | (None, n1) \<Rightarrow>
          (case runningBlock timeout clk cs n1 of
             (Some r, n2) \<Rightarrow> ((True, r), n2)
           | (None, n2) \<Rightarrow> containersLoop pod timeout clk rest n2))"

type_synonym inspector = "Pod \<Rightarrow> Duration \<Rightarrow> clock \<Rightarrow> nat \<Rightarrow> (bool \<times> string) \<times> nat"

definition shouldRestartPod :: inspector where
  "shouldRestartPod pod timeout clk n =
     (if Phase pod = PodPending \<or> Phase pod = PodRunning
      then containersLoop pod timeout clk (ContainerStatuses pod) n
      else ((False, ''''), n))"

text \<open>The inspector of the earlier revision (main.go): one waiting reason, no phase test.\<close>

fun creatingLoop ::
  "Pod \<Rightarrow> Duration \<Rightarrow> clock \<Rightarrow> ContainerStatus list \<Rightarrow> nat \<Rightarrow> (bool \<times> string) \<times> nat" where
  "creatingLoop pod timeout clk [] n = ((False, ''''), n)"
| "creatingLoop pod timeout clk (cs # rest) n =
     (case Waiting (State cs) of
        None \<Rightarrow> creatingLoop pod timeout clk rest n
      | Some w \<Rightarrow>
          if Reason w = ''ContainerCreating''
          then (case time_Since clk n (CreationTimestamp pod) of
                  (d, n') \<Rightarrow>
                    if d > timeout then ((True, ''ContainerCreating''), n')
                    else creatingLoop pod timeout clk rest n')
          else creatingLoop pod timeout clk rest n)"

definition isStuckInContainerCreating :: inspector where
  "isStuckInContainerCreating pod timeout clk n =
     creatingLoop pod timeout clk (ContainerStatuses pod) n"


section \<open>The controller loop\<close>

text \<open>
  What one cycle does to the outside world, in order: the lines it logs (one
  constructor per \<open>log.Printf\<close>, carrying its arguments) and the calls it makes to the
  orchestrator. \<open>LogPodDetails\<close> carries the fields of the \<open>PodStatus\<close> struct, the
  stuck duration as a duration rather than as formatted text.
\<close>

datatype DeletionPropagation =
  DeletePropagationOrphan | DeletePropagationBackground | DeletePropagationForeground

datatype effect =
    LogListError string
  | LogProblemDetected string string
  | LogRestarting string Duration string
  | LogPodDetails string string string Duration time
  | PodsDelete string string int DeletionPropagation
  | LogRestartError string string
  | LogRestartOK string
  | LogMockNotify string string string
  | LogNotifyError string string
  | LogNotifyOK string
  | LogInvalidPendingTimeout string
  | LogInvalidCheckInterval string

text \<open>
  What the outside world answers during one cycle: the readings of the clock, the result
  of the listing call, the error (if any) of a delete call for a namespace and a name,
  and for \<open>notifyAPI\<close> the error of the context when it is done before the 200 ms wait.
\<close>

record cycle =
  clockAt :: clock
  podsList :: "string + Pod list"
  podsDelete :: "string \<Rightarrow> string \<Rightarrow> string option"
  ctxDone :: "string \<Rightarrow> string \<Rightarrow> string option"

text \<open>\<open>podProblemTimes\<close>: pod name to the time the problem was first seen.\<close>

type_synonym tracker = "string \<rightharpoonup> time"

definition restartPod :: "cycle \<Rightarrow> string \<Rightarrow> string \<Rightarrow> effect list \<times> string option" where
  "restartPod cyc ns podName =
     ([PodsDelete ns podName 0 DeletePropagationForeground], podsDelete cyc ns podName)"

definition notifyAPI ::
  "cycle \<Rightarrow> string \<Rightarrow> string \<Rightarrow> string \<Rightarrow> effect list \<times> string option" where
  "notifyAPI cyc ns podName reason = ([LogMockNotify ns podName reason], ctxDone cyc ns podName)"

text \<open>
  The remediation step of the loop body: the call and the line logged for its outcome.
  The two revisions of \<open>checkPods\<close> differ in this step and in the inspector they
  call, and in nothing else.
\<close>

type_synonym remediation = "cycle \<Rightarrow> Pod \<Rightarrow> string \<Rightarrow> effect list"

definition restartBlock :: remediation where
  "restartBlock cyc pod reason =
     (case restartPod cyc (Namespace pod) (Name pod) of
        (effs, Some err) \<Rightarrow> effs @ [LogRestartError (Name pod) err]
      | (effs, None) \<Rightarrow> effs @ [LogRestartOK (Name pod)])"

definition notifyBlock :: remediation where
  "notifyBlock cyc pod reason =
     (case notifyAPI cyc (Namespace pod) (Name pod) reason of
        (effs, Some err) \<Rightarrow> effs @ [LogNotifyError (Name pod) err]
      | (effs, None) \<Rightarrow> effs @ [LogNotifyOK (Name pod)])"

text \<open>The \<open>if should { ... } else { ... }\<close> of the loop body, for one pod.\<close>

definition trackBlock ::
  "remediation \<Rightarrow> cycle \<Rightarrow> Duration \<Rightarrow> time \<Rightarrow> Pod \<Rightarrow> bool \<Rightarrow> string \<Rightarrow> tracker
     \<Rightarrow> tracker \<times> effect list" where
  "trackBlock rem cyc pendingTimeout now pod should reason m =
     (if should then
        (case m (Name pod) of
           None \<Rightarrow> (m(Name pod \<mapsto> now), [LogProblemDetected (Name pod) reason])
         | Some firstSeen \<Rightarrow>
             if time_Sub now firstSeen \<ge> pendingTimeout then
               (m(Name pod := None),
                [LogRestarting (Name pod) (time_Sub now firstSeen) reason,
                 LogPodDetails (Name pod) (Phase pod) (Namespace pod)
                   (time_Sub now firstSeen) now]
                @ rem cyc pod reason)
             else (m, []))
      else (m(Name pod := None), []))"

fun podsLoop ::
  "inspector \<Rightarrow> remediation \<Rightarrow> Duration \<Rightarrow> cycle \<Rightarrow> time \<Rightarrow> Pod list \<Rightarrow> nat \<Rightarrow> tracker
     \<Rightarrow> tracker \<times> effect list" where
  "podsLoop insp rem pendingTimeout cyc now [] n m = (m, [])"
| "podsLoop insp rem pendingTimeout cyc now (pod # pods) n m =
     (case insp pod pendingTimeout (clockAt cyc) n of
        ((should, reason), n1) \<Rightarrow>
          (case trackBlock rem cyc pendingTimeout now pod should reason m of
             (m1, effs) \<Rightarrow>
               (case podsLoop insp rem pendingTimeout cyc now pods n1 m1 of
                  (m2, effs') \<Rightarrow> (m2, effs @ effs'))))"

definition checkPodsWith ::
  "inspector \<Rightarrow> remediation \<Rightarrow> Duration \<Rightarrow> cycle \<Rightarrow> tracker \<Rightarrow> tracker \<times> effect list" where
  "checkPodsWith insp rem pendingTimeout cyc m =
     (case podsList cyc of
        Inl err \<Rightarrow> (m, [LogListError err])
      | Inr pods \<Rightarrow>
          (case time_Now (clockAt cyc) 0 of
             (now, n) \<Rightarrow> podsLoop insp rem pendingTimeout cyc now pods n m))"

text \<open>\<open>checkPods\<close> as it stands now, and as it stood in main.go.\<close>

definition checkPods :: "Duration \<Rightarrow> cycle \<Rightarrow> tracker \<Rightarrow> tracker \<times> effect list" where
  "checkPods = checkPodsWith shouldRestartPod restartBlock"

definition checkPods_notify :: "Duration \<Rightarrow> cycle \<Rightarrow> tracker \<Rightarrow> tracker \<times> effect list" where
  "checkPods_notify = checkPodsWith isStuckInContainerCreating notifyBlock"

text \<open>
  The \<open>for\<close> loop of \<open>main\<close>, over the cycles the ticker lets through: one
  \<open>checkPods\<close> after the other on the same map.
\<close>

fun mainLoop ::
  "(cycle \<Rightarrow> tracker \<Rightarrow> tracker \<times> effect list) \<Rightarrow> cycle list \<Rightarrow> tracker
     \<Rightarrow> tracker \<times> effect list" where
  "mainLoop chk [] m = (m, [])"
| "mainLoop chk (cyc # cycs) m =
     (case chk cyc m of
        (m1, effs) \<Rightarrow>
          (case mainLoop chk cycs m1 of (m2, effs') \<Rightarrow> (m2, effs @ effs')))"


section \<open>Configuration from the environment\<close>

text \<open>
  \<open>strconv.Atoi\<close> on a 64-bit platform (the image is built for amd64), after the Go
  standard library: an optional sign, then decimal digits only; a value outside
  \<open>int64\<close> is a range error. The value returned beside an error is left out, the
  callers here do not read it.
\<close>

datatype NumError = ErrSyntax | ErrRange

definition isDigit :: "char \<Rightarrow> bool" where
  "isDigit c = (48 \<le> (of_char c :: nat) \<and> (of_char c :: nat) \<le> 57)"

definition digitVal :: "char \<Rightarrow> nat" where
  "digitVal c = of_char c - 48"

fun parseUintLoop :: "nat \<Rightarrow> string \<Rightarrow> NumError + nat" where
  "parseUintLoop n [] = Inr n"
| "parseUintLoop n (c # cs) =
     (if \<not> isDigit c then Inl ErrSyntax
      else if n \<ge> (2 ^ 64 - 1) div 10 + 1 then Inl ErrRange
      else if n * 10 + digitVal c > 2 ^ 64 - 1 then Inl ErrRange
      else parseUintLoop (n * 10 + digitVal c) cs)"

definition ParseUint :: "string \<Rightarrow> NumError + nat" where
  "ParseUint s = (if s = [] then Inl ErrSyntax else parseUintLoop 0 s)"

definition ParseInt :: "string \<Rightarrow> NumError + int" where
  "ParseInt s =
     (if s = [] then Inl ErrSyntax
      else
        let neg = (hd s = CHR ''-'');
            s' = (if hd s = CHR ''+'' \<or> hd s = CHR ''-'' then tl s else s)
        in case ParseUint s' of
             Inl err \<Rightarrow> Inl err
           | Inr un \<Rightarrow>
               if \<not> neg \<and> un \<ge> 2 ^ 63 then Inl ErrRange
               else if neg \<and> un > 2 ^ 63 then Inl ErrRange
               else Inr (if neg then - int un else int un))"

definition Atoi :: "string \<Rightarrow> NumError + int" where
  "Atoi s = ParseInt s"

text \<open>The process environment; \<open>os.Getenv\<close> gives the empty string for an unset name.\<close>

type_synonym environ = "string \<rightharpoonup> string"

definition os_Getenv :: "environ \<Rightarrow> string \<Rightarrow> string" where
  "os_Getenv env key = (case env key of None \<Rightarrow> '''' | Some v \<Rightarrow> v)"

definition getEnv :: "environ \<Rightarrow> string \<Rightarrow> string \<Rightarrow> string" where
  "getEnv env key def = (let v = os_Getenv env key in if v \<noteq> '''' then v else def)"

definition getPendingTimeout :: "environ \<Rightarrow> Duration \<times> effect list" where
  "getPendingTimeout env =
     (let str = getEnv env ''PENDING_TIMEOUT'' ''5'' in
      case Atoi str of
        Inl err \<Rightarrow> (5 * Minute, [LogInvalidPendingTimeout str])
      | Inr mins \<Rightarrow>
          if mins \<le> 0 then (5 * Minute, [LogInvalidPendingTimeout str])
          else (wrap64 (mins * Minute), []))"

definition getCheckInterval :: "environ \<Rightarrow> Duration \<times> effect list" where
  "getCheckInterval env =
     (let str = getEnv env ''CHECK_INTERVAL'' ''30'' in
      case Atoi str of
        Inl err \<Rightarrow> (30 * Second, [LogInvalidCheckInterval str])
      | Inr secs \<Rightarrow>
          if secs \<le> 0 then (30 * Second, [LogInvalidCheckInterval str])
          else (wrap64 (secs * Second), []))"


section \<open>The specification's notions\<close>

subsection \<open>The inspector's contract\<close>

text \<open>
  The rules of the inspector as the specification words them, for one clock reading
  \<open>now\<close>: the phases Succeeded, Failed and Unknown are never stuck; otherwise the
  first container, in the given order, that waits for a watched reason while the pod is
  older than the timeout, or that runs unready for longer than the timeout, decides, and
  gives the reason. The difference of two instants is Go's \<open>Time.Sub\<close>.
\<close>

definition watchedSet :: "string list" where
  "watchedSet = [''ContainerCreating'', ''ErrImagePull'', ''ImagePullBackOff'',
                 ''CrashLoopBackOff'', ''CreateContainerConfigError'']"

definition podPhases :: "string list" where
  "podPhases = [PodPending, PodRunning, PodSucceeded, PodFailed, PodUnknown]"

definition waitingTooLong :: "time \<Rightarrow> Pod \<Rightarrow> Duration \<Rightarrow> ContainerStatus \<Rightarrow> bool" where
  "waitingTooLong now pod timeout cs =
     (case Waiting (State cs) of
        None \<Rightarrow> False
      | Some w \<Rightarrow> List.member watchedSet (Reason w)
                  \<and> time_Sub now (CreationTimestamp pod) > timeout)"

definition runningNotReady :: "time \<Rightarrow> Duration \<Rightarrow> ContainerStatus \<Rightarrow> bool" where
  "runningNotReady now timeout cs =
     (case Running (State cs) of
        None \<Rightarrow> False
      | Some r \<Rightarrow> \<not> Ready cs \<and> time_Sub now (StartedAt r) > timeout)"

definition matchReason :: "time \<Rightarrow> Pod \<Rightarrow> Duration \<Rightarrow> ContainerStatus \<Rightarrow> string" where
  "matchReason now pod timeout cs =
     (if waitingTooLong now pod timeout cs
      then (case Waiting (State cs) of None \<Rightarrow> '''' | Some w \<Rightarrow> Reason w)
      else ''RunningNotReady'')"

definition classify :: "time \<Rightarrow> Pod \<Rightarrow> Duration \<Rightarrow> bool \<times> string" where
  "classify now pod timeout =
     (if List.member [PodSucceeded, PodFailed, PodUnknown] (Phase pod) then (False, '''')
      else (case find (\<lambda>cs. waitingTooLong now pod timeout cs \<or> runningNotReady now timeout cs)
                   (ContainerStatuses pod) of
              None \<Rightarrow> (False, '''')
            | Some cs \<Rightarrow> (True, matchReason now pod timeout cs)))"

text \<open>
  The same rules with the clock read anew at every comparison. A comparison is the
  instant it measures from and the reason it gives. A container offers, in this order,
  the comparison of rule (a) when it waits for a watched reason and that of rule (b) when
  it runs unready; the comparisons of a pod are those of its containers in the given
  order. The verdict is decided by the first comparison that exceeds the timeout, the
  comparison at position \<open>k\<close> being made with reading \<open>n + k\<close> of the clock; the
  readings taken are those up to the deciding comparison, or one for each comparison when
  none decides.
\<close>

definition comparisonsOf :: "Pod \<Rightarrow> ContainerStatus \<Rightarrow> (time \<times> string) list" where
  "comparisonsOf pod cs =
     (case Waiting (State cs) of
        None \<Rightarrow> []
      | Some w \<Rightarrow> if List.member watchedSet (Reason w)
                  then [(CreationTimestamp pod, Reason w)] else [])
     @ (case Running (State cs) of
          None \<Rightarrow> []
        | Some r \<Rightarrow> if \<not> Ready cs then [(StartedAt r, ''RunningNotReady'')] else [])"

definition comparisons :: "Pod \<Rightarrow> (time \<times> string) list" where
  "comparisons pod = concat (map (comparisonsOf pod) (ContainerStatuses pod))"

definition decidedBy ::
  "Duration \<Rightarrow> clock \<Rightarrow> (time \<times> string) list \<Rightarrow> nat \<Rightarrow> (bool \<times> string) \<times> nat" where
  "decidedBy timeout clk cmps n =
     (case find (\<lambda>(i, since, reason). time_Sub (clk i) since > timeout) (enumerate n cmps) of
        None \<Rightarrow> ((False, ''''), n + length cmps)
      | Some (i, since, reason) \<Rightarrow> ((True, reason), Suc i))"

text \<open>
  The comparisons of the earlier inspector: rule (a) alone, for the one reason
  \<open>ContainerCreating\<close>.
\<close>

definition creatingComparisons :: "Pod \<Rightarrow> (time \<times> string) list" where
  "creatingComparisons pod =
     concat (map (\<lambda>cs. case Waiting (State cs) of
                          None \<Rightarrow> []
                        | Some w \<Rightarrow> if Reason w = ''ContainerCreating''
                                    then [(CreationTimestamp pod, ''ContainerCreating'')] else [])
                 (ContainerStatuses pod))"

subsection \<open>Records, verdicts and remediation calls of a cycle\<close>

text \<open>What one pass of the loop body does to the record of the pod's own name.\<close>

definition updateRecord :: "Duration \<Rightarrow> time \<Rightarrow> bool \<Rightarrow> time option \<Rightarrow> time option" where
  "updateRecord pendingTimeout now should rec =
     (if should then
        (case rec of
           None \<Rightarrow> Some now
         | Some firstSeen \<Rightarrow>
             if time_Sub now firstSeen \<ge> pendingTimeout then None else Some firstSeen)
      else None)"

text \<open>A record is due when it has reached the timeout.\<close>

definition due :: "Duration \<Rightarrow> time \<Rightarrow> time option \<Rightarrow> bool" where
  "due pendingTimeout now rec =
     (case rec of None \<Rightarrow> False | Some firstSeen \<Rightarrow> time_Sub now firstSeen \<ge> pendingTimeout)"

text \<open>
  The remediation calls among the effects, by pod name: a delete call, or the call of
  \<open>notifyAPI\<close> (seen by the line it logs first).
\<close>

fun remediationOf :: "effect \<Rightarrow> string option" where
  "remediationOf (PodsDelete ns name grace prop) = Some name"
| "remediationOf (LogMockNotify ns name reason) = Some name"
| "remediationOf _ = None"

fun remediations :: "effect list \<Rightarrow> string list" where
  "remediations [] = []"
| "remediations (e # es) =
     (case remediationOf e of
        None \<Rightarrow> remediations es
      | Some name \<Rightarrow> name # remediations es)"

definition soleRemediation :: "remediation \<Rightarrow> bool" where
  "soleRemediation rem = (\<forall>cyc pod reason. remediations (rem cyc pod reason) = [Name pod])"

text \<open>
  The verdicts the inspector gives in one cycle, by pod name, in listing order: the clock
  readings each call sees depend on the calls before it. A name that is not listed, or
  any name when the listing fails, has no verdict.
\<close>

fun inspected ::
  "inspector \<Rightarrow> Duration \<Rightarrow> clock \<Rightarrow> Pod list \<Rightarrow> nat \<Rightarrow> (string \<times> bool \<times> string) list" where
  "inspected insp timeout clk [] n = []"
| "inspected insp timeout clk (pod # pods) n =
     (case insp pod timeout clk n of
        ((should, reason), n1) \<Rightarrow> (Name pod, should, reason) # inspected insp timeout clk pods n1)"

definition verdict ::
  "inspector \<Rightarrow> Duration \<Rightarrow> cycle \<Rightarrow> string \<Rightarrow> (bool \<times> string) option" where
  "verdict insp timeout cyc name =
     (case podsList cyc of
        Inl err \<Rightarrow> None
      | Inr pods \<Rightarrow> map_of (inspected insp timeout (clockAt cyc) pods (Suc 0)) name)"

definition stuckIn :: "inspector \<Rightarrow> Duration \<Rightarrow> cycle \<Rightarrow> string \<Rightarrow> bool" where
  "stuckIn insp timeout cyc name =
     (case verdict insp timeout cyc name of None \<Rightarrow> False | Some (should, reason) \<Rightarrow> should)"

text \<open>
  A listing of one namespace holds each name once (the namespace of the watchdog is never
  empty, so it never lists across namespaces).
\<close>

definition listsDistinct :: "cycle \<Rightarrow> bool" where
  "listsDistinct cyc = (case podsList cyc of Inl err \<Rightarrow> True | Inr pods \<Rightarrow> distinct (map Name pods))"

text \<open>The reading of the clock that \<open>checkPods\<close> calls \<open>now\<close>.\<close>

definition nowOf :: "cycle \<Rightarrow> time" where
  "nowOf cyc = clockAt cyc 0"

text \<open>Whether a cycle lists a pod of the given name (never, when the listing fails).\<close>

definition listed :: "cycle \<Rightarrow> string \<Rightarrow> bool" where
  "listed cyc name =
     (case podsList cyc of Inl err \<Rightarrow> False | Inr pods \<Rightarrow> List.member (map Name pods) name)"

text \<open>Whether the listing call of a cycle fails.\<close>

definition listingFails :: "cycle \<Rightarrow> bool" where
  "listingFails cyc = (case podsList cyc of Inl err \<Rightarrow> True | Inr pods \<Rightarrow> False)"

text \<open>
  A cycle during which a record first seen at \<open>T0\<close> stays as it is: the name is not
  listed, or it is listed, found stuck, and the record has not reached the timeout.
  And a cycle at which it is listed, found stuck, and the record has reached the timeout.
\<close>

definition holdsRecord :: "inspector \<Rightarrow> Duration \<Rightarrow> time \<Rightarrow> string \<Rightarrow> cycle \<Rightarrow> bool" where
  "holdsRecord insp timeout T0 name cyc =
     (listsDistinct cyc \<and>
      (case verdict insp timeout cyc name of
         None \<Rightarrow> True
       | Some (should, reason) \<Rightarrow> should \<and> time_Sub (nowOf cyc) T0 < timeout))"

definition reachesTimeout :: "inspector \<Rightarrow> Duration \<Rightarrow> time \<Rightarrow> string \<Rightarrow> cycle \<Rightarrow> bool" where
  "reachesTimeout insp timeout T0 name cyc =
     (listsDistinct cyc \<and> stuckIn insp timeout cyc name \<and> timeout \<le> time_Sub (nowOf cyc) T0)"

text \<open>
  The first-seen time of a pod's stuck episode as of a cycle: that of the record it has
  on entry, or the cycle's \<open>now\<close> when it has none.
\<close>

definition firstSeenAt :: "tracker \<Rightarrow> string \<Rightarrow> time \<Rightarrow> time" where
  "firstSeenAt m name now = (case m name of None \<Rightarrow> now | Some firstSeen \<Rightarrow> firstSeen)"

subsection \<open>Numeric strings\<close>

text \<open>
  A numeric string is an optional sign followed by one or more decimal digits;
  \<open>intValue\<close> is the integer it denotes.
\<close>

definition digitsOf :: "string \<Rightarrow> string" where
  "digitsOf s = (if s \<noteq> [] \<and> (hd s = CHR ''+'' \<or> hd s = CHR ''-'') then tl s else s)"

definition decimalValue :: "string \<Rightarrow> nat" where
  "decimalValue s = foldl (\<lambda>n c. n * 10 + digitVal c) 0 s"

definition numeric :: "string \<Rightarrow> bool" where
  "numeric s = (digitsOf s \<noteq> [] \<and> list_all isDigit (digitsOf s))"

definition intValue :: "string \<Rightarrow> int" where
  "intValue s =
     (if s \<noteq> [] \<and> hd s = CHR ''-'' then - int (decimalValue (digitsOf s))
      else int (decimalValue (digitsOf s)))"


section \<open>Concrete pods and cycles\<close>

text \<open>
  Inputs at which the theorems below are evaluated. The pod of the specification's
  scenario A (created at 0, one container waiting with \<open>ImagePullBackOff\<close>), the same
  pod in another namespace or phase, a pod that waits for a reason that is not watched, and
  a pod with three containers. Cycles during which the clock stands still at one reading:
  one whose listing and calls succeed, one whose listing fails, one whose delete calls are
  refused. And a clock that starts at 300 s and advances one second with every reading.
\<close>

definition waitingContainer :: "string \<Rightarrow> ContainerStatus" where
  "waitingContainer reason =
     \<lparr>State = \<lparr>Waiting = Some \<lparr>Reason = reason\<rparr>, Running = None, Terminated = None\<rparr>,
      Ready = False\<rparr>"

definition runningContainer :: "time \<Rightarrow> bool \<Rightarrow> ContainerStatus" where
  "runningContainer started ready =
     \<lparr>State = \<lparr>Waiting = None, Running = Some \<lparr>StartedAt = started\<rparr>, Terminated = None\<rparr>,
      Ready = ready\<rparr>"

definition podP1 :: Pod where
  "podP1 = \<lparr>Name = ''p1'', Namespace = ''default'', CreationTimestamp = 0,
             Phase = PodPending, ContainerStatuses = [waitingContainer ''ImagePullBackOff'']\<rparr>"

definition stillCycle :: "Pod list \<Rightarrow> time \<Rightarrow> cycle" where
  "stillCycle pods t =
     \<lparr>clockAt = (\<lambda>i. t), podsList = Inr pods,
      podsDelete = (\<lambda>ns name. None), ctxDone = (\<lambda>ns name. None)\<rparr>"

definition failedCycle :: "time \<Rightarrow> cycle" where
  "failedCycle t =
     \<lparr>clockAt = (\<lambda>i. t), podsList = Inl ''context deadline exceeded'',
      podsDelete = (\<lambda>ns name. None), ctxDone = (\<lambda>ns name. None)\<rparr>"

definition tickingClock :: clock where
  "tickingClock i = (300 + int i) * Second"

definition podInNamespace :: "string \<Rightarrow> Pod" where
  "podInNamespace ns = podP1\<lparr>Namespace := ns\<rparr>"

definition podInitializing :: Pod where
  "podInitializing = \<lparr>Name = ''p2'', Namespace = ''default'', CreationTimestamp = 0,
             Phase = PodPending, ContainerStatuses = [waitingContainer ''PodInitializing'']\<rparr>"

definition podTwoContainers :: Pod where
  "podTwoContainers = \<lparr>Name = ''p4'', Namespace = ''default'', CreationTimestamp = 0,
             Phase = PodRunning,
             ContainerStatuses = [runningContainer (100 * Second) True,
                                  runningContainer (20 * Second) False,
                                  waitingContainer ''CrashLoopBackOff'']\<rparr>"

definition podSucceeded :: Pod where
  "podSucceeded = podP1\<lparr>Phase := PodSucceeded\<rparr>"

text \<open>Scenario A: the pod alone in the listing, one cycle at each of the given seconds.\<close>

definition scenarioA :: "int list \<Rightarrow> cycle list" where
  "scenarioA secs = map (\<lambda>k. stillCycle [podP1] (k * Second)) secs"

definition refusedCycle :: "Pod list \<Rightarrow> time \<Rightarrow> cycle" where
  "refusedCycle pods t =
     \<lparr>clockAt = (\<lambda>i. t), podsList = Inr pods,
      podsDelete = (\<lambda>ns name. Some ''pods is forbidden''), ctxDone = (\<lambda>ns name. None)\<rparr>"

text \<open>
  Scenario A again, with the inspector reading the clock a millisecond after the reading
  that \<open>checkPods\<close> calls \<open>now\<close>.
\<close>

definition Millisecond :: Duration where
  "Millisecond = 1000000"

definition lateCycle :: "Pod list \<Rightarrow> time \<Rightarrow> cycle" where
  "lateCycle pods t =
     \<lparr>clockAt = (\<lambda>i. if i = 0 then t else t + Millisecond), podsList = Inr pods,
      podsDelete = (\<lambda>ns name. None), ctxDone = (\<lambda>ns name. None)\<rparr>"

definition scenarioLate :: "int list \<Rightarrow> cycle list" where
  "scenarioLate secs = map (\<lambda>k. lateCycle [podP1] (k * Second)) secs"

text \<open>
  A clock that starts at 300 s and advances one nanosecond with every reading, and a pod
  with two containers that both wait for a watched reason. A pod of phase Failed whose
  container waits with \<open>ContainerCreating\<close>. A clock that shows 301 s at its reading
  number 2 and 0 at every other reading.
\<close>

definition Nanosecond :: Duration where
  "Nanosecond = 1"

definition creepingClock :: clock where
  "creepingClock i = 300 * Second + int i * Nanosecond"

definition podTwoPulls :: Pod where
  "podTwoPulls = \<lparr>Name = ''p5'', Namespace = ''default'', CreationTimestamp = 0,
             Phase = PodPending,
             ContainerStatuses = [waitingContainer ''ImagePullBackOff'',
                                  waitingContainer ''ErrImagePull'']\<rparr>"

definition podFailedCreating :: Pod where
  "podFailedCreating = \<lparr>Name = ''p6'', Namespace = ''default'', CreationTimestamp = 0,
             Phase = PodFailed, ContainerStatuses = [waitingContainer ''ContainerCreating'']\<rparr>"

definition oneReadingClock :: clock where
  "oneReadingClock i = (if i = 2 then 301 * Second else 0)"



section \<open>Facts about time\<close>

lemma time_Sub_refl: "time_Sub t t = 0"
  by (simp add: time_Sub_def minDuration_def maxDuration_def)

lemma time_Sub_exact:
  "minDuration \<le> t - u \<Longrightarrow> t - u \<le> maxDuration \<Longrightarrow> time_Sub t u = t - u"
  by (simp add: time_Sub_def)

lemma time_Sub_ge_iff:
  "minDuration < d \<Longrightarrow> d \<le> maxDuration \<Longrightarrow> (d \<le> time_Sub t u) = (d \<le> t - u)"
  by (auto simp: time_Sub_def)


section \<open>The inspector against its contract\<close>

lemma index_watch: "index_bool reasonsToWatch r = List.member watchedSet r"
  by (simp add: index_bool_def reasonsToWatch_def watchedSet_def)

lemma waitingBlock_at:
  "waitingBlock pod timeout clk cs n =
     (if waitingTooLong (clk n) pod timeout cs
      then (case Waiting (State cs) of None \<Rightarrow> None | Some w \<Rightarrow> Some (Reason w))
      else None,
      snd (waitingBlock pod timeout clk cs n))"
  by (simp add: waitingBlock_def waitingTooLong_def index_watch
      time_Since_def time_Now_def split: option.splits)

lemma runningBlock_at:
  "runningBlock timeout clk cs n =
     (if runningNotReady (clk n) timeout cs then Some ''RunningNotReady'' else None,
      snd (runningBlock timeout clk cs n))"
  by (simp add: runningBlock_def runningNotReady_def time_Since_def time_Now_def
      split: option.splits)

lemma containersLoop_frozen:
  assumes "\<forall>i. clk i = now"
  shows "fst (containersLoop pod timeout clk css n) =
     (case find (\<lambda>cs. waitingTooLong now pod timeout cs \<or> runningNotReady now timeout cs) css of
        None \<Rightarrow> (False, '''')
      | Some cs \<Rightarrow> (True, matchReason now pod timeout cs))"
proof (induction css arbitrary: n)
  case Nil
  show ?case by simp
next
  case (Cons cs css)
  have w: "fst (waitingBlock pod timeout clk cs n) =
      (if waitingTooLong now pod timeout cs
       then (case Waiting (State cs) of None \<Rightarrow> None | Some w \<Rightarrow> Some (Reason w)) else None)"
    using assms by (subst waitingBlock_at) simp
  have r: "fst (runningBlock timeout clk cs k) =
      (if runningNotReady now timeout cs then Some ''RunningNotReady'' else None)" for k
    using assms by (subst runningBlock_at) simp
  obtain a n1 where P1: "waitingBlock pod timeout clk cs n = (a, n1)"
    by (metis prod.exhaust)
  obtain b n2 where P2: "runningBlock timeout clk cs n1 = (b, n2)"
    by (metis prod.exhaust)
  from w P1 have a: "a = (if waitingTooLong now pod timeout cs
       then (case Waiting (State cs) of None \<Rightarrow> None | Some w \<Rightarrow> Some (Reason w)) else None)"
    by simp
  from r[of n1] P2 have b:
    "b = (if runningNotReady now timeout cs then Some ''RunningNotReady'' else None)"
    by simp
  show ?case
    using P1 P2 a b Cons.IH[of n2]
    by (auto simp: matchReason_def waitingTooLong_def split: option.splits)
qed

lemma decidedBy_Nil: "decidedBy timeout clk [] n = ((False, ''''), n)"
  by (simp add: decidedBy_def)

lemma decidedBy_Cons:
  "decidedBy timeout clk ((since, reason) # rest) n =
     (if time_Sub (clk n) since > timeout then ((True, reason), Suc n)
      else decidedBy timeout clk rest (Suc n))"
  by (simp add: decidedBy_def split: option.splits)

lemma containersLoop_decidedBy:
  "containersLoop pod timeout clk css n =
     decidedBy timeout clk (concat (map (comparisonsOf pod) css)) n"
proof (induction css arbitrary: n)
  case Nil
  show ?case by (simp add: decidedBy_Nil)
next
  case (Cons cs css)
  show ?case
    by (simp add: waitingBlock_def runningBlock_def comparisonsOf_def index_watch
        time_Since_def time_Now_def decidedBy_Cons Cons.IH split: option.splits)
qed

lemma creatingLoop_decidedBy:
  "creatingLoop pod timeout clk css n =
     decidedBy timeout clk
       (concat (map (\<lambda>cs. case Waiting (State cs) of
                          None \<Rightarrow> []
                        | Some w \<Rightarrow> if Reason w = ''ContainerCreating''
                                    then [(CreationTimestamp pod, ''ContainerCreating'')] else [])
                 css)) n"
proof (induction css arbitrary: n)
  case Nil
  show ?case by (simp add: decidedBy_Nil)
next
  case (Cons cs css)
  show ?case
    by (simp add: time_Since_def time_Now_def decidedBy_Cons Cons.IH split: option.splits)
qed

lemma shouldRestartPod_decidedBy:
  "Phase pod = PodPending \<or> Phase pod = PodRunning \<Longrightarrow>
     shouldRestartPod pod timeout clk n = decidedBy timeout clk (comparisons pod) n"
  by (simp add: shouldRestartPod_def comparisons_def containersLoop_decidedBy)

lemma isStuckInContainerCreating_decidedBy:
  "isStuckInContainerCreating pod timeout clk n =
     decidedBy timeout clk (creatingComparisons pod) n"
  by (simp add: isStuckInContainerCreating_def creatingComparisons_def creatingLoop_decidedBy)

lemma shouldRestartPod_frozen:
  assumes "List.member podPhases (Phase pod)"
  shows "fst (shouldRestartPod pod timeout (\<lambda>i. now) n) = classify now pod timeout"
  using assms containersLoop_frozen[of "\<lambda>i. now" now pod timeout "ContainerStatuses pod" n]
  by (auto simp: shouldRestartPod_def classify_def podPhases_def
        PodPending_def PodRunning_def PodSucceeded_def PodFailed_def PodUnknown_def)

text \<open>
  Two calls whose readings agree one by one, as far as the first call reads the clock,
  return the same pair and take the same number of readings.
\<close>

lemma decidedBy_reads: "n \<le> snd (decidedBy timeout clk cmps n)"
proof (induction cmps arbitrary: n)
  case Nil
  show ?case by (simp add: decidedBy_Nil)
next
  case (Cons c cmps)
  obtain since reason where c: "c = (since, reason)" by (cases c)
  from Cons.IH[of "Suc n"] show ?case
    unfolding c by (simp add: decidedBy_Cons)
qed

lemma decidedBy_agree:
  assumes "\<forall>i. i < snd (decidedBy timeout clk1 cmps n1) - n1 \<longrightarrow> clk1 (n1 + i) = clk2 (n2 + i)"
  shows "fst (decidedBy timeout clk1 cmps n1) = fst (decidedBy timeout clk2 cmps n2)
       \<and> snd (decidedBy timeout clk1 cmps n1) - n1 = snd (decidedBy timeout clk2 cmps n2) - n2"
  using assms
proof (induction cmps arbitrary: n1 n2)
  case Nil
  show ?case by (simp add: decidedBy_Nil)
next
  case (Cons c cmps)
  obtain since reason where c: "c = (since, reason)" by (cases c)
  have pos: "0 < snd (decidedBy timeout clk1 (c # cmps) n1) - n1"
    using decidedBy_reads[of "Suc n1" timeout clk1 cmps]
    unfolding c by (simp add: decidedBy_Cons)
  with Cons.prems have c0: "clk1 n1 = clk2 n2"
    by (metis add.right_neutral)
  show ?case
  proof (cases "time_Sub (clk1 n1) since > timeout")
    case True
    with c0 show ?thesis unfolding c by (simp add: decidedBy_Cons)
  next
    case False
    have "\<forall>i. i < snd (decidedBy timeout clk1 cmps (Suc n1)) - Suc n1 \<longrightarrow>
              clk1 (Suc n1 + i) = clk2 (Suc n2 + i)"
    proof (intro allI impI)
      fix i
      assume "i < snd (decidedBy timeout clk1 cmps (Suc n1)) - Suc n1"
      with False have "Suc i < snd (decidedBy timeout clk1 (c # cmps) n1) - n1"
        unfolding c by (simp add: decidedBy_Cons)
      with Cons.prems have "clk1 (n1 + Suc i) = clk2 (n2 + Suc i)" by blast
      then show "clk1 (Suc n1 + i) = clk2 (Suc n2 + i)" by simp
    qed
    from Cons.IH[OF this] have ih:
      "fst (decidedBy timeout clk1 cmps (Suc n1)) = fst (decidedBy timeout clk2 cmps (Suc n2))"
      "snd (decidedBy timeout clk1 cmps (Suc n1)) - Suc n1 =
       snd (decidedBy timeout clk2 cmps (Suc n2)) - Suc n2"
      by simp_all
    have g1: "Suc n1 \<le> snd (decidedBy timeout clk1 cmps (Suc n1))" by (rule decidedBy_reads)
    have g2: "Suc n2 \<le> snd (decidedBy timeout clk2 cmps (Suc n2))" by (rule decidedBy_reads)
    from False c0 ih g1 g2 show ?thesis
      unfolding c by (simp add: decidedBy_Cons)
  qed
qed

lemma containersLoop_same_readings:
  assumes "\<forall>i. i < snd (containersLoop pod timeout clk1 css n1) - n1 \<longrightarrow>
             clk1 (n1 + i) = clk2 (n2 + i)"
  shows "fst (containersLoop pod timeout clk1 css n1) = fst (containersLoop pod timeout clk2 css n2)
       \<and> snd (containersLoop pod timeout clk1 css n1) - n1 =
           snd (containersLoop pod timeout clk2 css n2) - n2"
  using assms unfolding containersLoop_decidedBy by (rule decidedBy_agree)

lemma creatingLoop_same_readings:
  assumes "\<forall>i. i < snd (creatingLoop pod timeout clk1 css n1) - n1 \<longrightarrow>
             clk1 (n1 + i) = clk2 (n2 + i)"
  shows "fst (creatingLoop pod timeout clk1 css n1) = fst (creatingLoop pod timeout clk2 css n2)
       \<and> snd (creatingLoop pod timeout clk1 css n1) - n1 =
           snd (creatingLoop pod timeout clk2 css n2) - n2"
  using assms unfolding creatingLoop_decidedBy by (rule decidedBy_agree)

lemma shouldRestartPod_same_readings:
  assumes "\<forall>i. i < snd (shouldRestartPod pod timeout clk1 n1) - n1 \<longrightarrow>
             clk1 (n1 + i) = clk2 (n2 + i)"
  shows "fst (shouldRestartPod pod timeout clk1 n1) = fst (shouldRestartPod pod timeout clk2 n2)
       \<and> snd (shouldRestartPod pod timeout clk1 n1) - n1 =
           snd (shouldRestartPod pod timeout clk2 n2) - n2"
proof (cases "Phase pod = PodPending \<or> Phase pod = PodRunning")
  case True
  with assms have "\<forall>i. i < snd (containersLoop pod timeout clk1 (ContainerStatuses pod) n1) - n1 \<longrightarrow>
             clk1 (n1 + i) = clk2 (n2 + i)"
    by (simp add: shouldRestartPod_def)
  from containersLoop_same_readings[OF this] True show ?thesis
    by (simp add: shouldRestartPod_def)
next
  case False
  then show ?thesis by (simp add: shouldRestartPod_def)
qed


section \<open>The loop body and the loop over the listing\<close>

lemma remediations_append: "remediations (xs @ ys) = remediations xs @ remediations ys"
  by (induction xs) (auto split: option.splits)

lemma restartBlock_sole: "soleRemediation restartBlock"
  by (simp add: soleRemediation_def restartBlock_def restartPod_def split: option.splits)

lemma notifyBlock_sole: "soleRemediation notifyBlock"
  by (simp add: soleRemediation_def notifyBlock_def notifyAPI_def split: option.splits)

lemma trackBlock_own:
  "fst (trackBlock rem cyc timeout now pod should reason m) (Name pod) =
     updateRecord timeout now should (m (Name pod))"
  by (simp add: trackBlock_def updateRecord_def split: option.splits)

lemma trackBlock_other:
  "k \<noteq> Name pod \<Longrightarrow> fst (trackBlock rem cyc timeout now pod should reason m) k = m k"
  by (simp add: trackBlock_def split: option.splits)

lemma trackBlock_remediations:
  assumes "soleRemediation rem"
  shows "remediations (snd (trackBlock rem cyc timeout now pod should reason m)) =
     (if should \<and> due timeout now (m (Name pod)) then [Name pod] else [])"
  using assms
  by (simp add: trackBlock_def soleRemediation_def due_def split: option.splits)

lemma podsLoop_frame:
  "name \<notin> Name ` set pods \<Longrightarrow>
     fst (podsLoop insp rem timeout cyc now pods n m) name = m name"
proof (induction pods arbitrary: n m)
  case Nil
  show ?case by simp
next
  case (Cons pod pods)
  obtain should reason n1 where i: "insp pod timeout (clockAt cyc) n = ((should, reason), n1)"
    by (metis prod.exhaust)
  obtain m1 effs where t: "trackBlock rem cyc timeout now pod should reason m = (m1, effs)"
    by (metis prod.exhaust)
  obtain m2 effs' where l: "podsLoop insp rem timeout cyc now pods n1 m1 = (m2, effs')"
    by (metis prod.exhaust)
  from Cons.prems have ne: "name \<noteq> Name pod" and rest: "name \<notin> Name ` set pods"
    by auto
  from Cons.IH[OF rest, of n1 m1] l have "m2 name = m1 name" by simp
  moreover from trackBlock_other[OF ne, of rem cyc timeout now should reason m] t
  have "m1 name = m name" by simp
  ultimately show ?case using i t l by simp
qed

lemma podsLoop_frame_remediations:
  assumes "soleRemediation rem"
  shows "name \<notin> Name ` set pods \<Longrightarrow>
     name \<notin> set (remediations (snd (podsLoop insp rem timeout cyc now pods n m)))"
proof (induction pods arbitrary: n m)
  case Nil
  show ?case by simp
next
  case (Cons pod pods)
  obtain should reason n1 where i: "insp pod timeout (clockAt cyc) n = ((should, reason), n1)"
    by (metis prod.exhaust)
  obtain m1 effs where t: "trackBlock rem cyc timeout now pod should reason m = (m1, effs)"
    by (metis prod.exhaust)
  obtain m2 effs' where l: "podsLoop insp rem timeout cyc now pods n1 m1 = (m2, effs')"
    by (metis prod.exhaust)
  from Cons.prems have ne: "name \<noteq> Name pod" and rest: "name \<notin> Name ` set pods"
    by auto
  from Cons.IH[OF rest, of n1 m1] l have a: "name \<notin> set (remediations effs')" by simp
  from trackBlock_remediations[OF assms, of cyc timeout now pod should reason m] t ne
  have b: "name \<notin> set (remediations effs)" by (simp split: if_splits)
  show ?case using i t l a b by (simp add: remediations_append)
qed

lemma inspected_names: "map fst (inspected insp timeout clk pods n) = map Name pods"
  by (induction pods arbitrary: n) (auto split: prod.splits)

lemma podsLoop_listed:
  assumes "distinct (map Name pods)"
    and "map_of (inspected insp timeout (clockAt cyc) pods n) name = Some (should, reason)"
  shows "fst (podsLoop insp rem timeout cyc now pods n m) name =
           updateRecord timeout now should (m name)"
  using assms
proof (induction pods arbitrary: n m)
  case Nil
  then show ?case by simp
next
  case (Cons pod pods)
  obtain s r n1 where i: "insp pod timeout (clockAt cyc) n = ((s, r), n1)"
    by (metis prod.exhaust)
  obtain m1 effs where t: "trackBlock rem cyc timeout now pod s r m = (m1, effs)"
    by (metis prod.exhaust)
  obtain m2 effs' where l: "podsLoop insp rem timeout cyc now pods n1 m1 = (m2, effs')"
    by (metis prod.exhaust)
  from Cons.prems(1) have d: "distinct (map Name pods)" and fresh: "Name pod \<notin> Name ` set pods"
    by auto
  show ?case
  proof (cases "name = Name pod")
    case True
    with Cons.prems(2) i have sr: "s = should" "r = reason" by simp_all
    from podsLoop_frame[of name pods insp rem timeout cyc now n1 m1] fresh True l
    have "m2 name = m1 name" by simp
    moreover from trackBlock_own[of rem cyc timeout now pod s r m] t True sr
    have "m1 name = updateRecord timeout now should (m name)" by simp
    ultimately show ?thesis using i t l by simp
  next
    case False
    with Cons.prems(2) i
    have "map_of (inspected insp timeout (clockAt cyc) pods n1) name = Some (should, reason)"
      by simp
    from Cons.IH[OF d this, of m1] l
    have "m2 name = updateRecord timeout now should (m1 name)" by simp
    moreover from trackBlock_other[of name pod rem cyc timeout now s r m] False t
    have "m1 name = m name" by simp
    ultimately show ?thesis using i t l by simp
  qed
qed

lemma podsLoop_listed_remediations:
  assumes "soleRemediation rem"
    and "distinct (map Name pods)"
    and "map_of (inspected insp timeout (clockAt cyc) pods n) name = Some (should, reason)"
  shows "count_list (remediations (snd (podsLoop insp rem timeout cyc now pods n m))) name =
           (if should \<and> due timeout now (m name) then 1 else 0)"
  using assms(2,3)
proof (induction pods arbitrary: n m)
  case Nil
  then show ?case by simp
next
  case (Cons pod pods)
  obtain s r n1 where i: "insp pod timeout (clockAt cyc) n = ((s, r), n1)"
    by (metis prod.exhaust)
  obtain m1 effs where t: "trackBlock rem cyc timeout now pod s r m = (m1, effs)"
    by (metis prod.exhaust)
  obtain m2 effs' where l: "podsLoop insp rem timeout cyc now pods n1 m1 = (m2, effs')"
    by (metis prod.exhaust)
  from Cons.prems(1) have d: "distinct (map Name pods)" and fresh: "Name pod \<notin> Name ` set pods"
    by auto
  have split: "remediations (snd (podsLoop insp rem timeout cyc now (pod # pods) n m)) =
      remediations effs @ remediations effs'"
    using i t l by (simp add: remediations_append)
  note tr = trackBlock_remediations[OF assms(1), of cyc timeout now pod s r m]
  show ?case
  proof (cases "name = Name pod")
    case True
    with Cons.prems(2) i have sr: "s = should" "r = reason" by simp_all
    from podsLoop_frame_remediations[OF assms(1), of name pods insp timeout cyc now n1 m1]
      fresh True l
    have "count_list (remediations effs') name = 0" by (simp add: count_list_0_iff)
    moreover from tr t True sr
    have "count_list (remediations effs) name =
       (if should \<and> due timeout now (m name) then 1 else 0)" by simp
    ultimately show ?thesis unfolding split by simp
  next
    case False
    with Cons.prems(2) i
    have "map_of (inspected insp timeout (clockAt cyc) pods n1) name = Some (should, reason)"
      by simp
    from Cons.IH[OF d this, of m1] l
    have "count_list (remediations effs') name =
       (if should \<and> due timeout now (m1 name) then 1 else 0)" by simp
    moreover from trackBlock_other[of name pod rem cyc timeout now s r m] False t
    have "m1 name = m name" by simp
    moreover from tr t False have "count_list (remediations effs) name = 0"
      by (simp split: if_splits)
    ultimately show ?thesis unfolding split by simp
  qed
qed


section \<open>One cycle and a run of cycles\<close>

lemma checkPodsWith_listed:
  "podsList cyc = Inr pods \<Longrightarrow>
     checkPodsWith insp rem timeout cyc m =
       podsLoop insp rem timeout cyc (nowOf cyc) pods (Suc 0) m"
  by (simp add: checkPodsWith_def time_Now_def nowOf_def)

lemma checkPodsWith_failed:
  "podsList cyc = Inl err \<Longrightarrow> checkPodsWith insp rem timeout cyc m = (m, [LogListError err])"
  by (simp add: checkPodsWith_def)

lemma inspected_name_set:
  "fst ` set (inspected insp timeout clk pods n) = Name ` set pods"
  using inspected_names[of insp timeout clk pods n] by (metis list.set_map)

lemma verdict_None_iff:
  "podsList cyc = Inr pods \<Longrightarrow>
     (verdict insp timeout cyc name = None) = (name \<notin> Name ` set pods)"
  by (simp add: verdict_def map_of_eq_None_iff inspected_name_set)

lemma checkPodsWith_record:
  assumes "listsDistinct cyc"
  shows "fst (checkPodsWith insp rem timeout cyc m) name =
     (case verdict insp timeout cyc name of
        None \<Rightarrow> m name
      | Some (should, reason) \<Rightarrow> updateRecord timeout (nowOf cyc) should (m name))"
proof (cases "podsList cyc")
  case (Inl err)
  then show ?thesis by (simp add: checkPodsWith_failed verdict_def)
next
  case (Inr pods)
  with assms have d: "distinct (map Name pods)" by (simp add: listsDistinct_def)
  show ?thesis
  proof (cases "verdict insp timeout cyc name")
    case None
    with Inr have "name \<notin> Name ` set pods" by (simp add: verdict_None_iff)
    with None Inr show ?thesis by (simp add: checkPodsWith_listed podsLoop_frame)
  next
    case (Some v)
    obtain s r where v: "v = (s, r)" by (metis prod.exhaust)
    from Some v Inr
    have "map_of (inspected insp timeout (clockAt cyc) pods (Suc 0)) name = Some (s, r)"
      by (simp add: verdict_def)
    from podsLoop_listed[OF d this] Some v Inr show ?thesis
      by (simp add: checkPodsWith_listed)
  qed
qed

lemma checkPodsWith_count:
  assumes "soleRemediation rem" and "listsDistinct cyc"
  shows "count_list (remediations (snd (checkPodsWith insp rem timeout cyc m))) name =
     (if stuckIn insp timeout cyc name \<and> due timeout (nowOf cyc) (m name) then 1 else 0)"
proof (cases "podsList cyc")
  case (Inl err)
  then show ?thesis by (simp add: checkPodsWith_failed verdict_def stuckIn_def)
next
  case (Inr pods)
  with assms have d: "distinct (map Name pods)" by (simp add: listsDistinct_def)
  show ?thesis
  proof (cases "verdict insp timeout cyc name")
    case None
    with Inr have "name \<notin> Name ` set pods" by (simp add: verdict_None_iff)
    from podsLoop_frame_remediations[OF assms(1) this] None Inr show ?thesis
      by (simp add: checkPodsWith_listed stuckIn_def count_list_0_iff)
  next
    case (Some v)
    obtain s r where v: "v = (s, r)" by (metis prod.exhaust)
    from Some v Inr
    have "map_of (inspected insp timeout (clockAt cyc) pods (Suc 0)) name = Some (s, r)"
      by (simp add: verdict_def)
    from podsLoop_listed_remediations[OF assms(1) d this] Some v Inr show ?thesis
      by (simp add: checkPodsWith_listed stuckIn_def)
  qed
qed

lemma mainLoop_append:
  "mainLoop chk (xs @ ys) m =
     (case mainLoop chk xs m of
        (m1, effs) \<Rightarrow> (case mainLoop chk ys m1 of (m2, effs') \<Rightarrow> (m2, effs @ effs')))"
  by (induction xs arbitrary: m) (auto split: prod.splits)

lemma mainLoop_snoc:
  "mainLoop chk (xs @ [c]) m =
     (fst (chk c (fst (mainLoop chk xs m))),
      snd (mainLoop chk xs m) @ snd (chk c (fst (mainLoop chk xs m))))"
  by (simp add: mainLoop_append split: prod.splits)


lemma mainLoop_failing:
  "list_all listingFails cycs \<Longrightarrow>
     fst (mainLoop (checkPodsWith insp rem timeout) cycs m) = m
     \<and> remediations (snd (mainLoop (checkPodsWith insp rem timeout) cycs m)) = []"
proof (induction cycs)
  case Nil
  show ?case by simp
next
  case (Cons c cycs)
  then obtain err where "podsList c = Inl err"
    by (auto simp: listingFails_def split: sum.splits)
  then have "checkPodsWith insp rem timeout c m = (m, [LogListError err])"
    by (rule checkPodsWith_failed)
  with Cons show ?case by (auto split: prod.splits)
qed

lemma verdict_listed: "(verdict insp timeout cyc name = None) = (\<not> listed cyc name)"
  by (cases "podsList cyc") (simp_all add: verdict_def listed_def inspected_name_set map_of_eq_None_iff)




lemma mainLoop_holdsRecord:
  assumes "soleRemediation rem"
  shows "m name = Some T0 \<Longrightarrow> list_all (holdsRecord insp timeout T0 name) cycs \<Longrightarrow>
     fst (mainLoop (checkPodsWith insp rem timeout) cycs m) name = Some T0
     \<and> count_list (remediations (snd (mainLoop (checkPodsWith insp rem timeout) cycs m))) name = 0"
proof (induction cycs arbitrary: m)
  case Nil
  then show ?case by simp
next
  case (Cons c cycs)
  obtain m1 effs where c: "checkPodsWith insp rem timeout c m = (m1, effs)"
    by (metis prod.exhaust)
  obtain m2 effs' where r: "mainLoop (checkPodsWith insp rem timeout) cycs m1 = (m2, effs')"
    by (metis prod.exhaust)
  from Cons.prems(2) have h: "holdsRecord insp timeout T0 name c"
    and rest: "list_all (holdsRecord insp timeout T0 name) cycs"
    by simp_all
  from h have d: "listsDistinct c" by (simp add: holdsRecord_def)
  from checkPodsWith_record[OF d, of insp rem timeout m name] c h Cons.prems(1)
  have 1: "m1 name = Some T0"
    by (auto simp: holdsRecord_def updateRecord_def split: option.splits)
  from checkPodsWith_count[OF assms d, of insp timeout m name] c h Cons.prems(1)
  have 2: "count_list (remediations effs) name = 0"
    by (auto simp: holdsRecord_def stuckIn_def due_def split: option.splits)
  from Cons.IH[where m = m1, OF 1 rest] r
  have 3: "m2 name = Some T0" "count_list (remediations effs') name = 0" by simp_all
  from 1 2 3 c r show ?case by (simp add: remediations_append)
qed

lemma mainLoop_reachesTimeout:
  assumes "soleRemediation rem"
    and "m name = Some T0"
    and "list_all (holdsRecord insp timeout T0 name) before"
    and "reachesTimeout insp timeout T0 name c"
  shows "count_list (remediations (snd (mainLoop (checkPodsWith insp rem timeout) before m))) name = 0
     \<and> fst (mainLoop (checkPodsWith insp rem timeout) before m) name = Some T0
     \<and> count_list (remediations
          (snd (mainLoop (checkPodsWith insp rem timeout) (before @ [c]) m))) name = 1
     \<and> fst (mainLoop (checkPodsWith insp rem timeout) (before @ [c]) m) name = None"
proof -
  let ?chk = "checkPodsWith insp rem timeout"
  let ?m1 = "fst (mainLoop ?chk before m)"
  from mainLoop_holdsRecord[where m = m, OF assms(1,2,3)]
  have b: "?m1 name = Some T0"
    "count_list (remediations (snd (mainLoop ?chk before m))) name = 0"
    by simp_all
  from assms(4) have d: "listsDistinct c" and s: "stuckIn insp timeout c name"
    and t: "timeout \<le> time_Sub (nowOf c) T0"
    by (simp_all add: reachesTimeout_def)
  from checkPodsWith_record[OF d, of insp rem timeout ?m1 name] s t b(1)
  have 1: "fst (?chk c ?m1) name = None"
    by (auto simp: stuckIn_def updateRecord_def split: option.splits)
  from checkPodsWith_count[OF assms(1) d, of insp timeout ?m1 name] s t b(1)
  have 2: "count_list (remediations (snd (?chk c ?m1))) name = 1"
    by (simp add: due_def)
  from b 1 2 show ?thesis
    by (simp add: mainLoop_snoc remediations_append)
qed

text \<open>The earlier revision of \<open>checkPods\<close> keeps the same books.\<close>

lemma one_notification_per_episode:
  "m name = Some T0 \<Longrightarrow>
   list_all (holdsRecord isStuckInContainerCreating timeout T0 name) before \<Longrightarrow>
   reachesTimeout isStuckInContainerCreating timeout T0 name c \<Longrightarrow>
     count_list (remediations (snd (mainLoop (checkPods_notify timeout) before m))) name = 0
     \<and> fst (mainLoop (checkPods_notify timeout) before m) name = Some T0
     \<and> count_list (remediations
          (snd (mainLoop (checkPods_notify timeout) (before @ [c]) m))) name = 1
     \<and> fst (mainLoop (checkPods_notify timeout) (before @ [c]) m) name = None"
  using mainLoop_reachesTimeout
    [OF notifyBlock_sole, where m = m and insp = isStuckInContainerCreating]
  by (simp add: checkPods_notify_def)

lemma notify_record_iff_stuck_below_timeout:
  assumes "listsDistinct cyc"
    and "verdict isStuckInContainerCreating timeout cyc name = Some (stuck, reason)"
    and "0 < timeout"
  shows "(fst (checkPods_notify timeout cyc m) name \<noteq> None) =
        (stuck \<and> time_Sub (nowOf cyc) (firstSeenAt m name (nowOf cyc)) < timeout)"
proof -
  from checkPodsWith_record[OF assms(1), of isStuckInContainerCreating notifyBlock timeout m name]
    assms(2)
  have "fst (checkPods_notify timeout cyc m) name =
      updateRecord timeout (nowOf cyc) stuck (m name)"
    by (simp add: checkPods_notify_def)
  with assms(3) show ?thesis
    by (auto simp: updateRecord_def firstSeenAt_def time_Sub_refl split: option.splits)
qed



section \<open>Scenario A, cycle by cycle\<close>

lemma seconds_Sub:
  "0 \<le> j \<Longrightarrow> j \<le> 100000 \<Longrightarrow> 0 \<le> k \<Longrightarrow> k \<le> 100000 \<Longrightarrow>
     time_Sub (k * Second) (j * Second) = (k - j) * Second"
  by (simp add: time_Sub_def minDuration_def maxDuration_def Second_def algebra_simps)

lemma podP1_inspect:
  "shouldRestartPod podP1 timeout (\<lambda>i. t) n =
     ((timeout < time_Sub t 0, if timeout < time_Sub t 0 then ''ImagePullBackOff'' else ''''),
      Suc n)"
  by (simp add: shouldRestartPod_def podP1_def waitingContainer_def waitingBlock_def
      runningBlock_def index_bool_def reasonsToWatch_def time_Since_def time_Now_def)

lemma podP1_cycle:
  "checkPods timeout (stillCycle [podP1] t) m =
     trackBlock restartBlock (stillCycle [podP1] t) timeout t podP1
       (timeout < time_Sub t 0) (if timeout < time_Sub t 0 then ''ImagePullBackOff'' else '''') m"
proof -
  have l: "podsList (stillCycle [podP1] t) = Inr [podP1]"
    and c: "clockAt (stillCycle [podP1] t) = (\<lambda>i. t)"
    by (simp_all add: stillCycle_def)
  show ?thesis
    unfolding checkPods_def checkPodsWith_listed[OF l]
    by (simp add: c nowOf_def podP1_inspect split: prod.splits)
qed

lemma podP1_fields:
  "Name podP1 = ''p1''" "Namespace podP1 = ''default''" "Phase podP1 = ''Pending''"
  by (simp_all add: podP1_def PodPending_def)

lemma podP1_early:
  assumes "0 \<le> k" "k \<le> 300" "m ''p1'' = None"
  shows "checkPods (5 * Minute) (stillCycle [podP1] (k * Second)) m = (m, [])"
proof -
  from assms(1,2) have "time_Sub (k * Second) 0 = k * Second"
    using seconds_Sub[of 0 k] by simp
  with assms(2) have "\<not> 5 * Minute < time_Sub (k * Second) 0"
    by (simp add: Minute_def Second_def)
  moreover from assms(3) have "m(''p1'' := None) = m" by (simp add: fun_upd_idem)
  ultimately show ?thesis
    by (simp add: podP1_cycle trackBlock_def podP1_fields)
qed

lemma podP1_detect:
  assumes "300 < k" "k \<le> 100000" "m ''p1'' = None"
  shows "checkPods (5 * Minute) (stillCycle [podP1] (k * Second)) m =
     (m(''p1'' \<mapsto> k * Second), [LogProblemDetected ''p1'' ''ImagePullBackOff''])"
proof -
  from assms(1,2) have "time_Sub (k * Second) 0 = k * Second"
    using seconds_Sub[of 0 k] by simp
  with assms(1) have "5 * Minute < time_Sub (k * Second) 0"
    by (simp add: Minute_def Second_def)
  with assms(3) show ?thesis
    by (simp add: podP1_cycle trackBlock_def podP1_fields)
qed

lemma podP1_wait:
  assumes "300 < k" "k \<le> 100000" "0 \<le> j" "j \<le> 100000" "k - j < 300"
    "m ''p1'' = Some (j * Second)"
  shows "checkPods (5 * Minute) (stillCycle [podP1] (k * Second)) m = (m, [])"
proof -
  from assms(1,2) have "time_Sub (k * Second) 0 = k * Second"
    using seconds_Sub[of 0 k] by simp
  with assms(1) have a: "5 * Minute < time_Sub (k * Second) 0"
    by (simp add: Minute_def Second_def)
  from assms have "time_Sub (k * Second) (j * Second) = (k - j) * Second"
    by (intro seconds_Sub) simp_all
  with assms(5) have b: "\<not> 5 * Minute \<le> time_Sub (k * Second) (j * Second)"
    by (simp add: Minute_def Second_def)
  from a b assms(6) show ?thesis
    by (simp add: podP1_cycle trackBlock_def podP1_fields)
qed

lemma podP1_fire:
  assumes "300 < k" "k \<le> 100000" "0 \<le> j" "300 \<le> k - j" "m ''p1'' = Some (j * Second)"
  shows "checkPods (5 * Minute) (stillCycle [podP1] (k * Second)) m =
     (m(''p1'' := None),
      [LogRestarting ''p1'' ((k - j) * Second) ''ImagePullBackOff'',
       LogPodDetails ''p1'' ''Pending'' ''default'' ((k - j) * Second) (k * Second),
       PodsDelete ''default'' ''p1'' 0 DeletePropagationForeground,
       LogRestartOK ''p1''])"
proof -
  from assms(1,2) have "time_Sub (k * Second) 0 = k * Second"
    using seconds_Sub[of 0 k] by simp
  with assms(1) have a: "5 * Minute < time_Sub (k * Second) 0"
    by (simp add: Minute_def Second_def)
  from assms have s: "time_Sub (k * Second) (j * Second) = (k - j) * Second"
    by (intro seconds_Sub) simp_all
  with assms(4) have b: "5 * Minute \<le> time_Sub (k * Second) (j * Second)"
    by (simp add: Minute_def Second_def)
  have r: "restartBlock (stillCycle [podP1] (k * Second)) podP1 ''ImagePullBackOff'' =
     [PodsDelete ''default'' ''p1'' 0 DeletePropagationForeground, LogRestartOK ''p1'']"
    by (simp add: restartBlock_def restartPod_def stillCycle_def podP1_fields)
  from a b assms(5) show ?thesis
    by (simp add: podP1_cycle trackBlock_def podP1_fields s r)
qed

lemma scenarioA_early:
  "list_all (\<lambda>k. 0 \<le> k \<and> k \<le> 300) ks \<Longrightarrow> m ''p1'' = None \<Longrightarrow>
     mainLoop (checkPods (5 * Minute)) (scenarioA ks) m = (m, [])"
  by (induction ks) (simp_all add: scenarioA_def podP1_early)

lemma scenarioA_wait:
  assumes "0 \<le> j" "j \<le> 100000" "m ''p1'' = Some (j * Second)"
  shows "list_all (\<lambda>k. 300 < k \<and> k \<le> 100000 \<and> k - j < 300) ks \<Longrightarrow>
     mainLoop (checkPods (5 * Minute)) (scenarioA ks) m = (m, [])"
proof (induction ks)
  case Nil
  show ?case by (simp add: scenarioA_def)
next
  case (Cons k ks)
  then have "checkPods (5 * Minute) (stillCycle [podP1] (k * Second)) m = (m, [])"
    using assms by (intro podP1_wait[where j = j]) simp_all
  with Cons show ?case by (simp add: scenarioA_def)
qed

lemma scenarioA_append: "scenarioA (xs @ ys) = scenarioA xs @ scenarioA ys"
  by (simp add: scenarioA_def)

lemma scenarioA_until_300:
  "mainLoop (checkPods (5 * Minute))
     (scenarioA [0, 30, 60, 90, 120, 150, 180, 210, 240, 270, 300]) Map.empty = (Map.empty, [])"
  by (rule scenarioA_early) simp_all

lemma scenarioA_until_330:
  "mainLoop (checkPods (5 * Minute))
     (scenarioA [0, 30, 60, 90, 120, 150, 180, 210, 240, 270, 300, 330]) Map.empty =
     ([''p1'' \<mapsto> 330 * Second], [LogProblemDetected ''p1'' ''ImagePullBackOff''])"
proof -
  have "mainLoop (checkPods (5 * Minute))
     (scenarioA ([0, 30, 60, 90, 120, 150, 180, 210, 240, 270, 300] @ [330])) Map.empty =
     ([''p1'' \<mapsto> 330 * Second], [LogProblemDetected ''p1'' ''ImagePullBackOff''])"
    unfolding scenarioA_append mainLoop_append scenarioA_until_300
    by (simp add: scenarioA_def podP1_detect)
  then show ?thesis by simp
qed

lemma scenarioA_until_600:
  "mainLoop (checkPods (5 * Minute))
     (scenarioA [0, 30, 60, 90, 120, 150, 180, 210, 240, 270, 300, 330,
                 360, 390, 420, 450, 480, 510, 540, 570, 600]) Map.empty =
     ([''p1'' \<mapsto> 330 * Second], [LogProblemDetected ''p1'' ''ImagePullBackOff''])"
proof -
  have w: "mainLoop (checkPods (5 * Minute))
      (scenarioA [360, 390, 420, 450, 480, 510, 540, 570, 600]) [''p1'' \<mapsto> 330 * Second] =
      ([''p1'' \<mapsto> 330 * Second], [])"
    by (rule scenarioA_wait[where j = 330]) simp_all
  have "mainLoop (checkPods (5 * Minute))
     (scenarioA ([0, 30, 60, 90, 120, 150, 180, 210, 240, 270, 300, 330]
                 @ [360, 390, 420, 450, 480, 510, 540, 570, 600])) Map.empty =
     ([''p1'' \<mapsto> 330 * Second], [LogProblemDetected ''p1'' ''ImagePullBackOff''])"
    unfolding scenarioA_append mainLoop_append scenarioA_until_330
    by (simp add: w)
  then show ?thesis by simp
qed

lemma scenarioA_until_630:
  "mainLoop (checkPods (5 * Minute))
     (scenarioA [0, 30, 60, 90, 120, 150, 180, 210, 240, 270, 300, 330,
                 360, 390, 420, 450, 480, 510, 540, 570, 600, 630]) Map.empty =
     (Map.empty,
      [LogProblemDetected ''p1'' ''ImagePullBackOff'',
       LogRestarting ''p1'' (300 * Second) ''ImagePullBackOff'',
       LogPodDetails ''p1'' ''Pending'' ''default'' (300 * Second) (630 * Second),
       PodsDelete ''default'' ''p1'' 0 DeletePropagationForeground,
       LogRestartOK ''p1''])"
proof -
  have f: "checkPods (5 * Minute) (stillCycle [podP1] (630 * Second)) [''p1'' \<mapsto> 330 * Second] =
     (Map.empty,
      [LogRestarting ''p1'' (300 * Second) ''ImagePullBackOff'',
       LogPodDetails ''p1'' ''Pending'' ''default'' (300 * Second) (630 * Second),
       PodsDelete ''default'' ''p1'' 0 DeletePropagationForeground,
       LogRestartOK ''p1''])"
    using podP1_fire[of 630 330 "[''p1'' \<mapsto> 330 * Second]"] by simp
  have "mainLoop (checkPods (5 * Minute))
     (scenarioA ([0, 30, 60, 90, 120, 150, 180, 210, 240, 270, 300, 330,
                 360, 390, 420, 450, 480, 510, 540, 570, 600] @ [630])) Map.empty =
     (Map.empty,
      [LogProblemDetected ''p1'' ''ImagePullBackOff'',
       LogRestarting ''p1'' (300 * Second) ''ImagePullBackOff'',
       LogPodDetails ''p1'' ''Pending'' ''default'' (300 * Second) (630 * Second),
       PodsDelete ''default'' ''p1'' 0 DeletePropagationForeground,
       LogRestartOK ''p1''])"
    unfolding scenarioA_append mainLoop_append scenarioA_until_600
    by (simp add: scenarioA_def f)
  then show ?thesis by simp
qed

lemma late_Sub:
  "0 \<le> k \<Longrightarrow> k \<le> 100000 \<Longrightarrow> time_Sub (k * Second + Millisecond) 0 = k * Second + Millisecond"
  by (simp add: time_Sub_def minDuration_def maxDuration_def Second_def Millisecond_def)

lemma podP1_inspect_at:
  "shouldRestartPod podP1 timeout clk n =
     ((timeout < time_Sub (clk n) 0,
       if timeout < time_Sub (clk n) 0 then ''ImagePullBackOff'' else ''''), Suc n)"
  by (simp add: shouldRestartPod_def podP1_def waitingContainer_def waitingBlock_def
      runningBlock_def index_bool_def reasonsToWatch_def time_Since_def time_Now_def)

lemma podP1_late_cycle:
  "checkPods timeout (lateCycle [podP1] t) m =
     trackBlock restartBlock (lateCycle [podP1] t) timeout t podP1
       (timeout < time_Sub (t + Millisecond) 0)
       (if timeout < time_Sub (t + Millisecond) 0 then ''ImagePullBackOff'' else '''') m"
proof -
  have l: "podsList (lateCycle [podP1] t) = Inr [podP1]"
    and c: "clockAt (lateCycle [podP1] t) = (\<lambda>i. if i = 0 then t else t + Millisecond)"
    by (simp_all add: lateCycle_def)
  show ?thesis
    unfolding checkPods_def checkPodsWith_listed[OF l]
    by (simp add: c nowOf_def podP1_inspect_at split: prod.splits)
qed

lemma podP1_late_early:
  assumes "0 \<le> k" "k < 300" "m ''p1'' = None"
  shows "checkPods (5 * Minute) (lateCycle [podP1] (k * Second)) m = (m, [])"
proof -
  from assms(1,2) have "time_Sub (k * Second + Millisecond) 0 = k * Second + Millisecond"
    by (intro late_Sub) simp_all
  moreover from assms(2) have "k \<le> 299" by simp
  then have "k * Second + Millisecond \<le> 299 * Second + Millisecond"
    by (simp add: Second_def)
  ultimately have "\<not> 5 * Minute < time_Sub (k * Second + Millisecond) 0"
    by (simp add: Minute_def Second_def Millisecond_def)
  moreover from assms(3) have "m(''p1'' := None) = m" by (simp add: fun_upd_idem)
  ultimately show ?thesis
    by (simp add: podP1_late_cycle trackBlock_def podP1_fields)
qed

lemma late_stuck:
  assumes "300 \<le> k" "k \<le> 100000"
  shows "5 * Minute < time_Sub (k * Second + Millisecond) 0"
proof -
  from assms have "time_Sub (k * Second + Millisecond) 0 = k * Second + Millisecond"
    by (intro late_Sub) simp_all
  with assms(1) show ?thesis
    by (simp add: Minute_def Second_def Millisecond_def)
qed

lemma podP1_late_detect:
  assumes "300 \<le> k" "k \<le> 100000" "m ''p1'' = None"
  shows "checkPods (5 * Minute) (lateCycle [podP1] (k * Second)) m =
     (m(''p1'' \<mapsto> k * Second), [LogProblemDetected ''p1'' ''ImagePullBackOff''])"
  using late_stuck[OF assms(1,2)] assms(3)
  by (simp add: podP1_late_cycle trackBlock_def podP1_fields)

lemma podP1_late_wait:
  assumes "300 \<le> k" "k \<le> 100000" "0 \<le> j" "j \<le> 100000" "k - j < 300"
    "m ''p1'' = Some (j * Second)"
  shows "checkPods (5 * Minute) (lateCycle [podP1] (k * Second)) m = (m, [])"
proof -
  from assms have "time_Sub (k * Second) (j * Second) = (k - j) * Second"
    by (intro seconds_Sub) simp_all
  with assms(5) have b: "\<not> 5 * Minute \<le> time_Sub (k * Second) (j * Second)"
    by (simp add: Minute_def Second_def)
  from late_stuck[OF assms(1,2)] b assms(6) show ?thesis
    by (simp add: podP1_late_cycle trackBlock_def podP1_fields)
qed

lemma podP1_late_fire:
  assumes "300 \<le> k" "k \<le> 100000" "0 \<le> j" "j \<le> 100000" "300 \<le> k - j"
    "m ''p1'' = Some (j * Second)"
  shows "checkPods (5 * Minute) (lateCycle [podP1] (k * Second)) m =
     (m(''p1'' := None),
      [LogRestarting ''p1'' ((k - j) * Second) ''ImagePullBackOff'',
       LogPodDetails ''p1'' ''Pending'' ''default'' ((k - j) * Second) (k * Second),
       PodsDelete ''default'' ''p1'' 0 DeletePropagationForeground,
       LogRestartOK ''p1''])"
proof -
  from assms have s: "time_Sub (k * Second) (j * Second) = (k - j) * Second"
    by (intro seconds_Sub) simp_all
  with assms(5) have b: "5 * Minute \<le> time_Sub (k * Second) (j * Second)"
    by (simp add: Minute_def Second_def)
  have r: "restartBlock (lateCycle [podP1] (k * Second)) podP1 ''ImagePullBackOff'' =
     [PodsDelete ''default'' ''p1'' 0 DeletePropagationForeground, LogRestartOK ''p1'']"
    by (simp add: restartBlock_def restartPod_def lateCycle_def podP1_fields)
  from late_stuck[OF assms(1,2)] b assms(6) show ?thesis
    by (simp add: podP1_late_cycle trackBlock_def podP1_fields s r)
qed

lemma scenarioLate_early:
  "list_all (\<lambda>k. 0 \<le> k \<and> k < 300) ks \<Longrightarrow> m ''p1'' = None \<Longrightarrow>
     mainLoop (checkPods (5 * Minute)) (scenarioLate ks) m = (m, [])"
  by (induction ks) (simp_all add: scenarioLate_def podP1_late_early)

lemma scenarioLate_wait:
  assumes "0 \<le> j" "j \<le> 100000" "m ''p1'' = Some (j * Second)"
  shows "list_all (\<lambda>k. 300 \<le> k \<and> k \<le> 100000 \<and> k - j < 300) ks \<Longrightarrow>
     mainLoop (checkPods (5 * Minute)) (scenarioLate ks) m = (m, [])"
proof (induction ks)
  case Nil
  show ?case by (simp add: scenarioLate_def)
next
  case (Cons k ks)
  then have "checkPods (5 * Minute) (lateCycle [podP1] (k * Second)) m = (m, [])"
    using assms by (intro podP1_late_wait[where j = j]) simp_all
  with Cons show ?case by (simp add: scenarioLate_def)
qed

lemma scenarioLate_append: "scenarioLate (xs @ ys) = scenarioLate xs @ scenarioLate ys"
  by (simp add: scenarioLate_def)

lemma scenarioLate_until_270:
  "mainLoop (checkPods (5 * Minute))
     (scenarioLate [0, 30, 60, 90, 120, 150, 180, 210, 240, 270]) Map.empty = (Map.empty, [])"
  by (rule scenarioLate_early) simp_all

lemma scenarioLate_until_300:
  "mainLoop (checkPods (5 * Minute))
     (scenarioLate [0, 30, 60, 90, 120, 150, 180, 210, 240, 270, 300]) Map.empty =
     ([''p1'' \<mapsto> 300 * Second], [LogProblemDetected ''p1'' ''ImagePullBackOff''])"
proof -
  have "mainLoop (checkPods (5 * Minute))
     (scenarioLate ([0, 30, 60, 90, 120, 150, 180, 210, 240, 270] @ [300])) Map.empty =
     ([''p1'' \<mapsto> 300 * Second], [LogProblemDetected ''p1'' ''ImagePullBackOff''])"
    unfolding scenarioLate_append mainLoop_append scenarioLate_until_270
    by (simp add: scenarioLate_def podP1_late_detect)
  then show ?thesis by simp
qed

lemma scenarioLate_until_570:
  "mainLoop (checkPods (5 * Minute))
     (scenarioLate [0, 30, 60, 90, 120, 150, 180, 210, 240, 270, 300,
                    330, 360, 390, 420, 450, 480, 510, 540, 570]) Map.empty =
     ([''p1'' \<mapsto> 300 * Second], [LogProblemDetected ''p1'' ''ImagePullBackOff''])"
proof -
  have w: "mainLoop (checkPods (5 * Minute))
      (scenarioLate [330, 360, 390, 420, 450, 480, 510, 540, 570]) [''p1'' \<mapsto> 300 * Second] =
      ([''p1'' \<mapsto> 300 * Second], [])"
    by (rule scenarioLate_wait[where j = 300]) simp_all
  have "mainLoop (checkPods (5 * Minute))
     (scenarioLate ([0, 30, 60, 90, 120, 150, 180, 210, 240, 270, 300]
                 @ [330, 360, 390, 420, 450, 480, 510, 540, 570])) Map.empty =
     ([''p1'' \<mapsto> 300 * Second], [LogProblemDetected ''p1'' ''ImagePullBackOff''])"
    unfolding scenarioLate_append mainLoop_append scenarioLate_until_300
    by (simp add: w)
  then show ?thesis by simp
qed

lemma scenarioLate_until_600:
  "mainLoop (checkPods (5 * Minute))
     (scenarioLate [0, 30, 60, 90, 120, 150, 180, 210, 240, 270, 300,
                    330, 360, 390, 420, 450, 480, 510, 540, 570, 600]) Map.empty =
     (Map.empty,
      [LogProblemDetected ''p1'' ''ImagePullBackOff'',
       LogRestarting ''p1'' (300 * Second) ''ImagePullBackOff'',
       LogPodDetails ''p1'' ''Pending'' ''default'' (300 * Second) (600 * Second),
       PodsDelete ''default'' ''p1'' 0 DeletePropagationForeground,
       LogRestartOK ''p1''])"
proof -
  have f: "checkPods (5 * Minute) (lateCycle [podP1] (600 * Second)) [''p1'' \<mapsto> 300 * Second] =
     (Map.empty,
      [LogRestarting ''p1'' (300 * Second) ''ImagePullBackOff'',
       LogPodDetails ''p1'' ''Pending'' ''default'' (300 * Second) (600 * Second),
       PodsDelete ''default'' ''p1'' 0 DeletePropagationForeground,
       LogRestartOK ''p1''])"
    using podP1_late_fire[of 600 300 "[''p1'' \<mapsto> 300 * Second]"] by simp
  have "mainLoop (checkPods (5 * Minute))
     (scenarioLate ([0, 30, 60, 90, 120, 150, 180, 210, 240, 270, 300,
                    330, 360, 390, 420, 450, 480, 510, 540, 570] @ [600])) Map.empty =
     (Map.empty,
      [LogProblemDetected ''p1'' ''ImagePullBackOff'',
       LogRestarting ''p1'' (300 * Second) ''ImagePullBackOff'',
       LogPodDetails ''p1'' ''Pending'' ''default'' (300 * Second) (600 * Second),
       PodsDelete ''default'' ''p1'' 0 DeletePropagationForeground,
       LogRestartOK ''p1''])"
    unfolding scenarioLate_append mainLoop_append scenarioLate_until_570
    by (simp add: scenarioLate_def f)
  then show ?thesis by simp
qed



section \<open>Facts about the concrete pods and cycles\<close>

lemma podInNamespace_fields:
  "Name (podInNamespace ns) = ''p1''" "Namespace (podInNamespace ns) = ns"
  by (simp_all add: podInNamespace_def podP1_def)

lemma waitingBlock_Namespace:
  "waitingBlock (pod\<lparr>Namespace := ns\<rparr>) timeout clk cs n = waitingBlock pod timeout clk cs n"
  by (simp add: waitingBlock_def split: option.splits)

lemma containersLoop_Namespace:
  "containersLoop (pod\<lparr>Namespace := ns\<rparr>) timeout clk css n =
     containersLoop pod timeout clk css n"
  by (induction css arbitrary: n)
    (simp_all add: waitingBlock_Namespace split: prod.splits option.splits)

lemma podInNamespace_inspect:
  "shouldRestartPod (podInNamespace ns) timeout clk n = shouldRestartPod podP1 timeout clk n"
  by (simp add: shouldRestartPod_def podInNamespace_def containersLoop_Namespace)

lemma stillCycle_fields:
  "clockAt (stillCycle pods t) = (\<lambda>i. t)" "podsList (stillCycle pods t) = Inr pods"
  "nowOf (stillCycle pods t) = t" "listsDistinct (stillCycle pods t) = distinct (map Name pods)"
  "listed (stillCycle pods t) name = (name \<in> Name ` set pods)"
  by (simp_all add: stillCycle_def nowOf_def listsDistinct_def listed_def)

lemma refusedCycle_fields:
  "clockAt (refusedCycle pods t) = (\<lambda>i. t)" "podsList (refusedCycle pods t) = Inr pods"
  "nowOf (refusedCycle pods t) = t" "listsDistinct (refusedCycle pods t) = distinct (map Name pods)"
  "listed (refusedCycle pods t) name = (name \<in> Name ` set pods)"
  by (simp_all add: refusedCycle_def nowOf_def listsDistinct_def listed_def)

lemma failedCycle_fields:
  "podsList (failedCycle t) = Inl ''context deadline exceeded''"
  "nowOf (failedCycle t) = t" "listsDistinct (failedCycle t)" "\<not> listed (failedCycle t) name"
  by (simp_all add: failedCycle_def nowOf_def listsDistinct_def listed_def)

lemma podP1_verdict:
  "podsList cyc = Inr [podP1] \<Longrightarrow> clockAt cyc = (\<lambda>i. t) \<Longrightarrow>
     verdict shouldRestartPod timeout cyc ''p1'' =
       Some (timeout < time_Sub t 0, if timeout < time_Sub t 0 then ''ImagePullBackOff'' else '''')"
  by (simp add: verdict_def podP1_inspect podP1_fields)

lemma podP1_holdsRecord:
  assumes "300 < k" "k \<le> 100000" "0 \<le> j" "j \<le> 100000" "k - j < 300"
  shows "holdsRecord shouldRestartPod (5 * Minute) (j * Second) ''p1''
           (stillCycle [podP1] (k * Second))"
proof -
  from assms(1,2) have "time_Sub (k * Second) 0 = k * Second"
    using seconds_Sub[of 0 k] by simp
  with assms(1) have a: "5 * Minute < time_Sub (k * Second) 0"
    by (simp add: Minute_def Second_def)
  from assms have "time_Sub (k * Second) (j * Second) = (k - j) * Second"
    by (intro seconds_Sub) simp_all
  with assms(5) have b: "time_Sub (k * Second) (j * Second) < 5 * Minute"
    by (simp add: Minute_def Second_def)
  from a b show ?thesis
    by (simp add: holdsRecord_def stillCycle_fields podP1_verdict[where t = "k * Second"])
qed

lemma podP1_stuckIn:
  assumes "podsList cyc = Inr [podP1]" "clockAt cyc = (\<lambda>i. k * Second)" "300 < k" "k \<le> 100000"
  shows "stuckIn shouldRestartPod (5 * Minute) cyc ''p1''"
proof -
  from assms(3,4) have "time_Sub (k * Second) 0 = k * Second"
    using seconds_Sub[of 0 k] by simp
  with assms(3) have a: "5 * Minute < time_Sub (k * Second) 0"
    by (simp add: Minute_def Second_def)
  then show ?thesis
    by (simp add: stuckIn_def podP1_verdict[OF assms(1,2)])
qed



lemma classify_examples:
  "classify (330 * Second) podP1 (5 * Minute) = (True, ''ImagePullBackOff'')"
  "classify (301 * Second) podP1 (5 * Minute) = (True, ''ImagePullBackOff'')"
  "classify (300 * Second) podP1 (5 * Minute) = (False, '''')"
  "classify 0 podInitializing (5 * Minute) = (False, '''')"
  "classify (330 * Second) podTwoContainers (5 * Minute) = (True, ''RunningNotReady'')"
  "classify (330 * Second) podFailedCreating (5 * Minute) = (False, '''')"
  by (simp_all add: classify_def podP1_def podInitializing_def podFailedCreating_def
      podTwoContainers_def waitingContainer_def runningContainer_def
      waitingTooLong_def runningNotReady_def matchReason_def watchedSet_def
      time_Sub_def minDuration_def maxDuration_def Minute_def Second_def
      PodPending_def PodRunning_def PodSucceeded_def PodFailed_def PodUnknown_def)

text \<open>
  Whatever the one instant \<open>now\<close> is, the contract never gives the reason of the
  second container of \<open>podTwoPulls\<close>: both containers are measured from the creation
  of the pod.
\<close>

lemma podTwoPulls_rule:
  "classify now podTwoPulls (5 * Minute) =
     (if time_Sub now 0 > 5 * Minute then (True, ''ImagePullBackOff'') else (False, ''''))"
  by (simp add: classify_def podTwoPulls_def waitingContainer_def
      waitingTooLong_def runningNotReady_def matchReason_def watchedSet_def
      PodPending_def PodRunning_def PodSucceeded_def PodFailed_def PodUnknown_def)

lemma podTwoPulls_creeping:
  "shouldRestartPod podTwoPulls (5 * Minute) creepingClock 0 = ((True, ''ErrImagePull''), 2)"
  by (simp add: shouldRestartPod_def podTwoPulls_def waitingContainer_def waitingBlock_def
      runningBlock_def index_bool_def reasonsToWatch_def time_Since_def time_Now_def
      creepingClock_def Nanosecond_def time_Sub_def minDuration_def maxDuration_def
      Minute_def Second_def PodPending_def)

lemma podP1_at_301:
  "shouldRestartPod podP1 (5 * Minute) tickingClock 1 = ((True, ''ImagePullBackOff''), 2)"
  by (simp add: shouldRestartPod_def podP1_def waitingContainer_def waitingBlock_def
      runningBlock_def index_bool_def reasonsToWatch_def time_Since_def time_Now_def
      tickingClock_def time_Sub_def minDuration_def maxDuration_def Minute_def Second_def
      PodPending_def)

lemma podInitializing_reads_nothing:
  "shouldRestartPod podInitializing timeout clk n = ((False, ''''), n)"
  by (simp add: shouldRestartPod_def podInitializing_def waitingContainer_def waitingBlock_def
      runningBlock_def index_bool_def reasonsToWatch_def PodPending_def)

lemma podFailedCreating_at_301:
  "isStuckInContainerCreating podFailedCreating (5 * Minute) tickingClock 1 =
     ((True, ''ContainerCreating''), 2)"
  by (simp add: isStuckInContainerCreating_def podFailedCreating_def waitingContainer_def
      time_Since_def time_Now_def tickingClock_def time_Sub_def minDuration_def maxDuration_def
      Minute_def Second_def)


section \<open>Parsing the configuration\<close>

lemma foldl_digits_mono: "n \<le> foldl (\<lambda>n c. n * 10 + digitVal c) n cs"
proof (induction cs arbitrary: n)
  case Nil
  show ?case by simp
next
  case (Cons c cs)
  have "n \<le> n * 10 + digitVal c" by simp
  also have "\<dots> \<le> foldl (\<lambda>n c. n * 10 + digitVal c) (n * 10 + digitVal c) cs"
    by (rule Cons.IH)
  finally show ?case by simp
qed

lemma parseUintLoop_digits:
  "list_all isDigit cs \<Longrightarrow> n \<le> 2 ^ 64 - 1 \<Longrightarrow>
     parseUintLoop n cs =
       (if foldl (\<lambda>n c. n * 10 + digitVal c) n cs \<le> 2 ^ 64 - 1
        then Inr (foldl (\<lambda>n c. n * 10 + digitVal c) n cs) else Inl ErrRange)"
proof (induction cs arbitrary: n)
  case Nil
  then show ?case by simp
next
  case (Cons c cs)
  let ?n' = "n * 10 + digitVal c"
  from Cons.prems have d: "isDigit c" and ds: "list_all isDigit cs" by simp_all
  note mono = foldl_digits_mono[of ?n' cs]
  show ?case
  proof (cases "n \<ge> (2 ^ 64 - 1) div 10 + 1")
    case True
    then have "2 ^ 64 - 1 < ?n'" by simp
    with mono have "\<not> foldl (\<lambda>n c. n * 10 + digitVal c) ?n' cs \<le> 2 ^ 64 - 1" by linarith
    with True d show ?thesis by simp
  next
    case False
    note small = this
    show ?thesis
    proof (cases "?n' > 2 ^ 64 - 1")
      case True
      with mono have "\<not> foldl (\<lambda>n c. n * 10 + digitVal c) ?n' cs \<le> 2 ^ 64 - 1" by linarith
      with True small d show ?thesis by simp
    next
      case False
      then have "?n' \<le> 2 ^ 64 - 1" by simp
      from Cons.IH[OF ds this] small False d show ?thesis by simp
    qed
  qed
qed

lemma ParseUint_digits:
  "cs \<noteq> [] \<Longrightarrow> list_all isDigit cs \<Longrightarrow>
     ParseUint cs =
       (if decimalValue cs \<le> 2 ^ 64 - 1 then Inr (decimalValue cs) else Inl ErrRange)"
  by (simp add: ParseUint_def decimalValue_def parseUintLoop_digits)

lemma parseUintLoop_not_digits:
  "\<not> list_all isDigit cs \<Longrightarrow> isl (parseUintLoop n cs)"
  by (induction cs arbitrary: n) auto

lemma ParseUint_not_digits:
  "cs = [] \<or> \<not> list_all isDigit cs \<Longrightarrow> isl (ParseUint cs)"
  by (auto simp: ParseUint_def parseUintLoop_not_digits)

lemma ParseInt_digitsOf:
  "s \<noteq> [] \<Longrightarrow>
     ParseInt s =
       (case ParseUint (digitsOf s) of
          Inl err \<Rightarrow> Inl err
        | Inr un \<Rightarrow>
            if hd s \<noteq> CHR ''-'' \<and> un \<ge> 2 ^ 63 then Inl ErrRange
            else if hd s = CHR ''-'' \<and> un > 2 ^ 63 then Inl ErrRange
            else Inr (if hd s = CHR ''-'' then - int un else int un))"
  by (simp add: ParseInt_def digitsOf_def Let_def)

lemma Atoi_not_numeric: "\<not> numeric s \<Longrightarrow> isl (Atoi s)"
proof (cases "s = []")
  case True
  then show ?thesis by (simp add: Atoi_def ParseInt_def)
next
  case False
  assume "\<not> numeric s"
  then have "isl (ParseUint (digitsOf s))"
    by (intro ParseUint_not_digits) (auto simp: numeric_def)
  with False show ?thesis
    by (auto simp: Atoi_def ParseInt_digitsOf split: sum.splits)
qed

lemma numeric_nonempty: "numeric s \<Longrightarrow> s \<noteq> []"
  by (auto simp: numeric_def digitsOf_def)

lemma Atoi_numeric:
  assumes "numeric s"
  shows "Atoi s =
     (if - (2 ^ 63) \<le> intValue s \<and> intValue s \<le> 2 ^ 63 - 1 then Inr (intValue s)
      else Inl ErrRange)"
proof -
  from assms have ne: "s \<noteq> []" by (rule numeric_nonempty)
  from assms have u: "ParseUint (digitsOf s) =
       (if decimalValue (digitsOf s) \<le> 2 ^ 64 - 1 then Inr (decimalValue (digitsOf s))
        else Inl ErrRange)"
    by (intro ParseUint_digits) (simp_all add: numeric_def)
  show ?thesis
    unfolding Atoi_def ParseInt_digitsOf[OF ne] u intValue_def
    using ne by auto
qed

lemma wrap64_id: "- (2 ^ 63) \<le> x \<Longrightarrow> x \<le> 2 ^ 63 - 1 \<Longrightarrow> wrap64 x = x"
  by (simp add: wrap64_def)

lemma getEnv_unset:
  "env key = None \<or> env key = Some '''' \<Longrightarrow> getEnv env key def = def"
  by (auto simp: getEnv_def os_Getenv_def)

lemma getEnv_set: "env key = Some s \<Longrightarrow> s \<noteq> '''' \<Longrightarrow> getEnv env key def = s"
  by (simp add: getEnv_def os_Getenv_def)

lemma Atoi_5: "Atoi ''5'' = Inr 5"
  by (simp add: Atoi_def ParseInt_def ParseUint_def isDigit_def digitVal_def)

lemma Atoi_30: "Atoi ''30'' = Inr 30"
  by (simp add: Atoi_def ParseInt_def ParseUint_def isDigit_def digitVal_def)

lemma Atoi_rejects:
  assumes "\<not> numeric s \<or> intValue s \<le> 0 \<or> 2 ^ 63 - 1 < intValue s"
  shows "(case Atoi s of Inl err \<Rightarrow> True | Inr v \<Rightarrow> v \<le> 0)"
proof (cases "numeric s")
  case False
  from Atoi_not_numeric[OF this] show ?thesis by (auto split: sum.splits)
next
  case True
  with assms show ?thesis by (auto simp: Atoi_numeric)
qed

lemma numeric_examples:
  "numeric ''10''" "intValue ''10'' = 10" "numeric ''45''" "intValue ''45'' = 45"
  "\<not> numeric ''abc''" "numeric ''-5''" "intValue ''-5'' = - 5"
  by (simp_all add: numeric_def digitsOf_def intValue_def decimalValue_def isDigit_def
      digitVal_def)

text \<open>
  Positive values whose duration does not fit \<open>int64\<close>: the multiplication by
  \<open>time.Minute\<close> or \<open>time.Second\<close> wraps around, here to a negative duration.
\<close>

lemma pending_timeout_overflow:
  "numeric ''200000000'' \<and> intValue ''200000000'' = 200000000
   \<and> getPendingTimeout [''PENDING_TIMEOUT'' \<mapsto> ''200000000''] = (- 6446744073709551616, [])
   \<and> getCheckInterval [''CHECK_INTERVAL'' \<mapsto> ''9223372037''] = (- 9223372036709551616, [])"
  by (simp add: getPendingTimeout_def getCheckInterval_def getEnv_def os_Getenv_def Atoi_def
      ParseInt_def ParseUint_def isDigit_def digitVal_def wrap64_def Minute_def Second_def
      numeric_def digitsOf_def intValue_def decimalValue_def)


section \<open>The claims\<close>

subsection \<open>C1\<close>

text \<open>
  C1, as stated, fails: in scenario A no remediation is issued at or near 5m10s. The first
  cycle to find the pod stuck only starts its timer, and no remediation call is made up to
  10m00s when every clock reading of a cycle is the cycle's time, nor up to 9m30s when the
  inspector reads the clock a millisecond later.
\<close>

theorem scenario_A_no_remediation_near_five_minutes:
  "remediations (snd (mainLoop (checkPods (5 * Minute))
     (scenarioA [0, 30, 60, 90, 120, 150, 180, 210, 240, 270, 300, 330,
                 360, 390, 420, 450, 480, 510, 540, 570, 600]) Map.empty)) = []
   \<and> remediations (snd (mainLoop (checkPods (5 * Minute))
     (scenarioLate [0, 30, 60, 90, 120, 150, 180, 210, 240, 270, 300,
                    330, 360, 390, 420, 450, 480, 510, 540, 570]) Map.empty)) = []"
  by (simp add: scenarioA_until_600 scenarioLate_until_570)

text \<open>
  C1, amended. Scenario A, with a timeout of 5 minutes and cycles every 30 seconds from
  t = 0. When every clock reading of a cycle is the cycle's time: nothing happens up to
  5m00s (the pod is not older than the timeout); the cycle at 5m30s creates the record;
  nothing more happens up to 10m00s; the cycle at 10m30s, the first with five minutes since
  the record, issues exactly one remediation (a delete with grace period 0 and foreground
  propagation) and leaves no record. At the next cycle the pod has no record if it is no
  longer listed, and a new record from that cycle's time if it is still listed as before.
  When the inspector reads the clock a millisecond after the cycle's \<open>now\<close>, the
  same happens one cycle earlier: the record is created at 5m00s and the one remediation
  is issued at 10m00s.
\<close>

theorem scenario_A_timeline:
  "mainLoop (checkPods (5 * Minute))
     (scenarioA [0, 30, 60, 90, 120, 150, 180, 210, 240, 270, 300]) Map.empty = (Map.empty, [])
   \<and> mainLoop (checkPods (5 * Minute))
     (scenarioA [0, 30, 60, 90, 120, 150, 180, 210, 240, 270, 300, 330]) Map.empty =
     ([''p1'' \<mapsto> 330 * Second], [LogProblemDetected ''p1'' ''ImagePullBackOff''])
   \<and> mainLoop (checkPods (5 * Minute))
     (scenarioA [0, 30, 60, 90, 120, 150, 180, 210, 240, 270, 300, 330,
                 360, 390, 420, 450, 480, 510, 540, 570, 600]) Map.empty =
     ([''p1'' \<mapsto> 330 * Second], [LogProblemDetected ''p1'' ''ImagePullBackOff''])
   \<and> mainLoop (checkPods (5 * Minute))
     (scenarioA [0, 30, 60, 90, 120, 150, 180, 210, 240, 270, 300, 330,
                 360, 390, 420, 450, 480, 510, 540, 570, 600, 630]) Map.empty =
     (Map.empty,
      [LogProblemDetected ''p1'' ''ImagePullBackOff'',
       LogRestarting ''p1'' (300 * Second) ''ImagePullBackOff'',
       LogPodDetails ''p1'' ''Pending'' ''default'' (300 * Second) (630 * Second),
       PodsDelete ''default'' ''p1'' 0 DeletePropagationForeground,
       LogRestartOK ''p1''])
   \<and> fst (mainLoop (checkPods (5 * Minute))
     (scenarioA [0, 30, 60, 90, 120, 150, 180, 210, 240, 270, 300, 330,
                 360, 390, 420, 450, 480, 510, 540, 570, 600, 630]
      @ [stillCycle [] (660 * Second)]) Map.empty) ''p1'' = None
   \<and> fst (mainLoop (checkPods (5 * Minute))
     (scenarioA [0, 30, 60, 90, 120, 150, 180, 210, 240, 270, 300, 330,
                 360, 390, 420, 450, 480, 510, 540, 570, 600, 630]
      @ [stillCycle [podP1] (660 * Second)]) Map.empty) ''p1'' = Some (660 * Second)
   \<and> mainLoop (checkPods (5 * Minute))
     (scenarioLate [0, 30, 60, 90, 120, 150, 180, 210, 240, 270]) Map.empty = (Map.empty, [])
   \<and> mainLoop (checkPods (5 * Minute))
     (scenarioLate [0, 30, 60, 90, 120, 150, 180, 210, 240, 270, 300,
                    330, 360, 390, 420, 450, 480, 510, 540, 570]) Map.empty =
     ([''p1'' \<mapsto> 300 * Second], [LogProblemDetected ''p1'' ''ImagePullBackOff''])
   \<and> mainLoop (checkPods (5 * Minute))
     (scenarioLate [0, 30, 60, 90, 120, 150, 180, 210, 240, 270, 300,
                    330, 360, 390, 420, 450, 480, 510, 540, 570, 600]) Map.empty =
     (Map.empty,
      [LogProblemDetected ''p1'' ''ImagePullBackOff'',
       LogRestarting ''p1'' (300 * Second) ''ImagePullBackOff'',
       LogPodDetails ''p1'' ''Pending'' ''default'' (300 * Second) (600 * Second),
       PodsDelete ''default'' ''p1'' 0 DeletePropagationForeground,
       LogRestartOK ''p1''])"
proof -
  have gone: "checkPods (5 * Minute) (stillCycle [] (660 * Second)) Map.empty = (Map.empty, [])"
    by (simp add: checkPods_def checkPodsWith_listed[where pods = "[]"] stillCycle_fields)
  have again: "checkPods (5 * Minute) (stillCycle [podP1] (660 * Second)) Map.empty =
     ([''p1'' \<mapsto> 660 * Second], [LogProblemDetected ''p1'' ''ImagePullBackOff''])"
    using podP1_detect[of 660 Map.empty] by simp
  have 5: "fst (mainLoop (checkPods (5 * Minute))
     (scenarioA [0, 30, 60, 90, 120, 150, 180, 210, 240, 270, 300, 330,
                 360, 390, 420, 450, 480, 510, 540, 570, 600, 630]
      @ [stillCycle [] (660 * Second)]) Map.empty) ''p1'' = None"
    unfolding mainLoop_snoc scenarioA_until_630 by (simp add: gone)
  have 6: "fst (mainLoop (checkPods (5 * Minute))
     (scenarioA [0, 30, 60, 90, 120, 150, 180, 210, 240, 270, 300, 330,
                 360, 390, 420, 450, 480, 510, 540, 570, 600, 630]
      @ [stillCycle [podP1] (660 * Second)]) Map.empty) ''p1'' = Some (660 * Second)"
    unfolding mainLoop_snoc scenarioA_until_630 by (simp add: again)
  from scenarioA_until_300 scenarioA_until_330 scenarioA_until_600 scenarioA_until_630 5 6
    scenarioLate_until_270 scenarioLate_until_570 scenarioLate_until_600
  show ?thesis by blast
qed

subsection \<open>C2\<close>

text \<open>
  C2, as stated, fails on two counts. The rule speaks of one instant \<open>now\<close>, while
  \<open>shouldRestartPod\<close> reads the clock anew at each comparison: with the clock passing
  the timeout between the comparison of the first container and that of the second, it
  returns stuck with the reason of the second container, which the rule gives at neither
  reading (nor at any other instant, \<open>podTwoPulls_rule\<close>). And
  \<open>isStuckInContainerCreating\<close>, the earlier inspector, watches only
  \<open>ContainerCreating\<close> and does not look at the phase: it finds a pod waiting with
  \<open>ImagePullBackOff\<close> not stuck and a Failed pod stuck.
\<close>

theorem one_instant_rule_fails:
  "fst (shouldRestartPod podTwoPulls (5 * Minute) creepingClock 0) = (True, ''ErrImagePull'')
   \<and> snd (shouldRestartPod podTwoPulls (5 * Minute) creepingClock 0) = 2
   \<and> classify (creepingClock 0) podTwoPulls (5 * Minute) = (False, '''')
   \<and> classify (creepingClock 1) podTwoPulls (5 * Minute) = (True, ''ImagePullBackOff'')
   \<and> fst (isStuckInContainerCreating podP1 (5 * Minute) (\<lambda>i. 330 * Second) 0) = (False, '''')
   \<and> classify (330 * Second) podP1 (5 * Minute) = (True, ''ImagePullBackOff'')
   \<and> fst (isStuckInContainerCreating podFailedCreating (5 * Minute) (\<lambda>i. 330 * Second) 0) =
        (True, ''ContainerCreating'')
   \<and> classify (330 * Second) podFailedCreating (5 * Minute) = (False, '''')"
proof -
  have rule: "classify (creepingClock 0) podTwoPulls (5 * Minute) = (False, '''')"
    "classify (creepingClock 1) podTwoPulls (5 * Minute) = (True, ''ImagePullBackOff'')"
    unfolding podTwoPulls_rule
    by (simp_all add: creepingClock_def Nanosecond_def
        time_Sub_def minDuration_def maxDuration_def Minute_def Second_def)
  have old1: "fst (isStuckInContainerCreating podP1 (5 * Minute) (\<lambda>i. 330 * Second) 0) = (False, '''')"
    by (simp add: isStuckInContainerCreating_def podP1_def waitingContainer_def)
  have old2: "fst (isStuckInContainerCreating podFailedCreating (5 * Minute) (\<lambda>i. 330 * Second) 0) =
        (True, ''ContainerCreating'')"
    by (simp add: isStuckInContainerCreating_def podFailedCreating_def waitingContainer_def
        time_Since_def time_Now_def time_Sub_def minDuration_def maxDuration_def
        Minute_def Second_def)
  from rule old1 old2 show ?thesis
    unfolding podTwoPulls_creeping classify_examples by simp
qed

text \<open>
  C2, amended. For the phases Succeeded, Failed and Unknown \<open>shouldRestartPod\<close>
  returns "not stuck" with no reason, whatever the containers and the clock are, and does
  not read the clock. For Pending and Running it goes through the containers in the given
  order and returns on the first comparison that exceeds the timeout, each comparison
  being made with a reading of the clock of its own: for a container that waits for a
  watched reason, the reading against the creation of the pod (stuck, with that reason);
  for a container that runs unready, the reading against its start (stuck,
  \<open>RunningNotReady\<close>); later containers play no part; not stuck when no comparison
  does. When the readings taken during the call all show the instant \<open>now\<close>, this is
  what the contract \<open>classify\<close> says for \<open>now\<close>. The earlier inspector
  \<open>isStuckInContainerCreating\<close> makes the first kind of comparison only, for the
  reason \<open>ContainerCreating\<close>, whatever the phase.
\<close>

theorem inspector_rule_per_reading:
  "(List.member [PodSucceeded, PodFailed, PodUnknown] (Phase pod) \<longrightarrow>
      shouldRestartPod pod timeout clk n = ((False, ''''), n))
   \<and> (List.member [PodPending, PodRunning] (Phase pod) \<longrightarrow>
      shouldRestartPod pod timeout clk n = decidedBy timeout clk (comparisons pod) n)
   \<and> ((\<forall>i. n \<le> i \<and> i < snd (shouldRestartPod pod timeout clk n) \<longrightarrow> clk i = now)
        \<and> List.member podPhases (Phase pod) \<longrightarrow>
      fst (shouldRestartPod pod timeout clk n) = classify now pod timeout)
   \<and> isStuckInContainerCreating pod timeout clk n =
        decidedBy timeout clk (creatingComparisons pod) n"
proof -
  have 1: "shouldRestartPod pod timeout clk n = ((False, ''''), n)"
    if "List.member [PodSucceeded, PodFailed, PodUnknown] (Phase pod)"
    using that
    by (auto simp: shouldRestartPod_def
        PodPending_def PodRunning_def PodSucceeded_def PodFailed_def PodUnknown_def)
  have 2: "shouldRestartPod pod timeout clk n = decidedBy timeout clk (comparisons pod) n"
    if "List.member [PodPending, PodRunning] (Phase pod)"
    using that by (intro shouldRestartPod_decidedBy) simp
  have 3: "fst (shouldRestartPod pod timeout clk n) = classify now pod timeout"
    if taken: "\<forall>i. n \<le> i \<and> i < snd (shouldRestartPod pod timeout clk n) \<longrightarrow> clk i = now"
      and ph: "List.member podPhases (Phase pod)"
  proof -
    have "\<forall>i. i < snd (shouldRestartPod pod timeout clk n) - n \<longrightarrow>
             clk (n + i) = (\<lambda>i. now) (n + i)"
      using taken by (simp add: less_diff_conv)
    from shouldRestartPod_same_readings[OF this]
    have "fst (shouldRestartPod pod timeout clk n) = fst (shouldRestartPod pod timeout (\<lambda>i. now) n)"
      by simp
    also have "\<dots> = classify now pod timeout"
      using ph by (rule shouldRestartPod_frozen)
    finally show ?thesis .
  qed
  from 1 2 3 isStuckInContainerCreating_decidedBy show ?thesis by blast
qed

theorem inspector_rule_per_reading_witness:
  "List.member [PodSucceeded, PodFailed, PodUnknown] (Phase podSucceeded)
   \<and> shouldRestartPod podSucceeded (5 * Minute) tickingClock 0 = ((False, ''''), 0)
   \<and> List.member [PodPending, PodRunning] (Phase podTwoPulls)
   \<and> comparisons podTwoPulls = [(0, ''ImagePullBackOff''), (0, ''ErrImagePull'')]
   \<and> shouldRestartPod podTwoPulls (5 * Minute) creepingClock 0 = ((True, ''ErrImagePull''), 2)
   \<and> snd (shouldRestartPod podP1 (5 * Minute) tickingClock 1) = 2
   \<and> tickingClock 1 = 301 * Second
   \<and> tickingClock 2 = 302 * Second
   \<and> List.member podPhases (Phase podP1)
   \<and> fst (shouldRestartPod podP1 (5 * Minute) tickingClock 1) = (True, ''ImagePullBackOff'')
   \<and> fst (shouldRestartPod podTwoContainers (5 * Minute) (\<lambda>i. 330 * Second) 0) =
        (True, ''RunningNotReady'')
   \<and> fst (shouldRestartPod podInitializing (5 * Minute) tickingClock 7) = (False, '''')
   \<and> creatingComparisons podFailedCreating = [(0, ''ContainerCreating'')]
   \<and> isStuckInContainerCreating podFailedCreating (5 * Minute) (\<lambda>i. 330 * Second) 0 =
        ((True, ''ContainerCreating''), 1)"
proof -
  have ph: "List.member podPhases (Phase podP1)" "List.member podPhases (Phase podInitializing)"
    "List.member [PodSucceeded, PodFailed, PodUnknown] (Phase podSucceeded)"
    "List.member podPhases (Phase podTwoContainers)"
    "List.member [PodPending, PodRunning] (Phase podTwoPulls)"
    by (simp_all add: podPhases_def podP1_def podInitializing_def podSucceeded_def
        podTwoContainers_def podTwoPulls_def)
  note live = inspector_rule_per_reading[THEN conjunct2, THEN conjunct1, rule_format]
  note one = inspector_rule_per_reading[THEN conjunct2, THEN conjunct2, THEN conjunct1,
      rule_format, OF conjI]
  note old = inspector_rule_per_reading[THEN conjunct2, THEN conjunct2, THEN conjunct2]
  have a: "shouldRestartPod podSucceeded (5 * Minute) tickingClock 0 = ((False, ''''), 0)"
    by (rule inspector_rule_per_reading[THEN conjunct1, rule_format, OF ph(3)])
  have cm: "comparisons podTwoPulls = [(0, ''ImagePullBackOff''), (0, ''ErrImagePull'')]"
    by (simp add: comparisons_def comparisonsOf_def podTwoPulls_def waitingContainer_def
        watchedSet_def)
  have b: "shouldRestartPod podTwoPulls (5 * Minute) creepingClock 0 = ((True, ''ErrImagePull''), 2)"
    unfolding live[OF ph(5)] cm
    by (simp add: decidedBy_def creepingClock_def Nanosecond_def time_Sub_def
        minDuration_def maxDuration_def Minute_def Second_def)
  have t: "tickingClock 1 = 301 * Second" "tickingClock 2 = 302 * Second"
    by (simp_all add: tickingClock_def)
  have rd: "snd (shouldRestartPod podP1 (5 * Minute) tickingClock 1) = 2"
    unfolding podP1_at_301 by simp
  have "\<forall>i. 1 \<le> i \<and> i < snd (shouldRestartPod podP1 (5 * Minute) tickingClock 1) \<longrightarrow>
           tickingClock i = 301 * Second"
  proof (intro allI impI)
    fix i :: nat
    assume "1 \<le> i \<and> i < snd (shouldRestartPod podP1 (5 * Minute) tickingClock 1)"
    with rd have "i = 1" by simp
    with t show "tickingClock i = 301 * Second" by simp
  qed
  from one[OF this ph(1)]
  have c: "fst (shouldRestartPod podP1 (5 * Minute) tickingClock 1) =
      classify (301 * Second) podP1 (5 * Minute)" .
  have c': "classify (301 * Second) podP1 (5 * Minute) = (True, ''ImagePullBackOff'')"
    by (simp add: classify_def podP1_def waitingContainer_def
      waitingTooLong_def runningNotReady_def matchReason_def watchedSet_def
      time_Sub_def minDuration_def maxDuration_def Minute_def Second_def
      PodPending_def PodRunning_def PodSucceeded_def PodFailed_def PodUnknown_def)
  have d: "fst (shouldRestartPod podTwoContainers (5 * Minute) (\<lambda>i. 330 * Second) 0) =
      classify (330 * Second) podTwoContainers (5 * Minute)"
    by (rule one[OF _ ph(4)]) simp
  have "\<forall>i. 7 \<le> i \<and> i < snd (shouldRestartPod podInitializing (5 * Minute) tickingClock 7) \<longrightarrow>
           tickingClock i = 0"
    by (simp add: podInitializing_reads_nothing)
  from one[OF this ph(2)]
  have e: "fst (shouldRestartPod podInitializing (5 * Minute) tickingClock 7) =
      classify 0 podInitializing (5 * Minute)" .
  have e': "classify 0 podInitializing (5 * Minute) = (False, '''')"
    by (simp add: classify_def podInitializing_def waitingContainer_def
      waitingTooLong_def runningNotReady_def matchReason_def watchedSet_def
      PodPending_def PodRunning_def PodSucceeded_def PodFailed_def PodUnknown_def)
  have cc: "creatingComparisons podFailedCreating = [(0, ''ContainerCreating'')]"
    by (simp add: creatingComparisons_def podFailedCreating_def waitingContainer_def)
  have f: "isStuckInContainerCreating podFailedCreating (5 * Minute) (\<lambda>i. 330 * Second) 0 =
        ((True, ''ContainerCreating''), 1)"
    unfolding old cc
    by (simp add: decidedBy_def time_Sub_def minDuration_def maxDuration_def
        Minute_def Second_def)
  show ?thesis
    unfolding a b c c' d e e' classify_examples cm cc f rd t
    using ph(1,3,5) by simp
qed

subsection \<open>C3\<close>

text \<open>
  C3. The update of the tracker for one pod in one cycle (the loop body after the
  inspector's verdict). Not stuck: the record of the pod's name is deleted and nothing
  else happens. Stuck without a record: a record with first-seen \<open>now\<close> is inserted
  and the start of the timer is logged. Stuck with a record first seen at \<open>T0\<close>: when
  \<open>now.Sub(T0)\<close> has reached the timeout the record is deleted and the remediation step
  runs, with that elapsed time and the current reason logged; below the timeout nothing
  changes. \<open>now.Sub(T0)\<close> is \<open>now - T0\<close> whenever that fits a duration. And in a
  cycle of \<open>checkPods\<close> that lists the pod, among however many others, the record of
  its name and the remediation calls for it are those of this one update.
\<close>

theorem tracker_update_step:
  "(\<not> stuck \<longrightarrow>
      trackBlock rem cyc timeout now pod stuck reason m = (m(Name pod := None), []))
   \<and> (stuck \<and> m (Name pod) = None \<longrightarrow>
      trackBlock rem cyc timeout now pod stuck reason m =
        (m(Name pod \<mapsto> now), [LogProblemDetected (Name pod) reason]))
   \<and> (stuck \<and> m (Name pod) = Some T0 \<and> timeout \<le> time_Sub now T0 \<longrightarrow>
      trackBlock rem cyc timeout now pod stuck reason m =
        (m(Name pod := None),
         LogRestarting (Name pod) (time_Sub now T0) reason
         # LogPodDetails (Name pod) (Phase pod) (Namespace pod) (time_Sub now T0) now
         # rem cyc pod reason))
   \<and> (stuck \<and> m (Name pod) = Some T0 \<and> time_Sub now T0 < timeout \<longrightarrow>
      trackBlock rem cyc timeout now pod stuck reason m = (m, []))
   \<and> (minDuration \<le> now - T0 \<and> now - T0 \<le> maxDuration \<longrightarrow> time_Sub now T0 = now - T0)
   \<and> (listsDistinct cyc \<and> verdict shouldRestartPod timeout cyc (Name pod) = Some (stuck, reason)
        \<longrightarrow>
      fst (checkPods timeout cyc m) (Name pod) =
        fst (trackBlock restartBlock cyc timeout (nowOf cyc) pod stuck reason m) (Name pod)
      \<and> count_list (remediations (snd (checkPods timeout cyc m))) (Name pod) =
        count_list (remediations
          (snd (trackBlock restartBlock cyc timeout (nowOf cyc) pod stuck reason m))) (Name pod))"
proof -
  have step: "(\<not> stuck \<longrightarrow>
      trackBlock rem cyc timeout now pod stuck reason m = (m(Name pod := None), []))
   \<and> (stuck \<and> m (Name pod) = None \<longrightarrow>
      trackBlock rem cyc timeout now pod stuck reason m =
        (m(Name pod \<mapsto> now), [LogProblemDetected (Name pod) reason]))
   \<and> (stuck \<and> m (Name pod) = Some T0 \<and> timeout \<le> time_Sub now T0 \<longrightarrow>
      trackBlock rem cyc timeout now pod stuck reason m =
        (m(Name pod := None),
         LogRestarting (Name pod) (time_Sub now T0) reason
         # LogPodDetails (Name pod) (Phase pod) (Namespace pod) (time_Sub now T0) now
         # rem cyc pod reason))
   \<and> (stuck \<and> m (Name pod) = Some T0 \<and> time_Sub now T0 < timeout \<longrightarrow>
      trackBlock rem cyc timeout now pod stuck reason m = (m, []))
   \<and> (minDuration \<le> now - T0 \<and> now - T0 \<le> maxDuration \<longrightarrow> time_Sub now T0 = now - T0)"
    by (simp add: trackBlock_def time_Sub_exact)
  have cycle: "fst (checkPods timeout cyc m) (Name pod) =
        fst (trackBlock restartBlock cyc timeout (nowOf cyc) pod stuck reason m) (Name pod)
      \<and> count_list (remediations (snd (checkPods timeout cyc m))) (Name pod) =
        count_list (remediations
          (snd (trackBlock restartBlock cyc timeout (nowOf cyc) pod stuck reason m))) (Name pod)"
    if d: "listsDistinct cyc"
      and v: "verdict shouldRestartPod timeout cyc (Name pod) = Some (stuck, reason)"
  proof -
    from checkPodsWith_record[OF d, of shouldRestartPod restartBlock timeout m "Name pod"] v
    have "fst (checkPods timeout cyc m) (Name pod) =
        updateRecord timeout (nowOf cyc) stuck (m (Name pod))"
      by (simp add: checkPods_def)
    then have a: "fst (checkPods timeout cyc m) (Name pod) =
        fst (trackBlock restartBlock cyc timeout (nowOf cyc) pod stuck reason m) (Name pod)"
      by (simp add: trackBlock_own)
    from checkPodsWith_count[OF restartBlock_sole d, of shouldRestartPod timeout m "Name pod"] v
    have "count_list (remediations (snd (checkPods timeout cyc m))) (Name pod) =
        (if stuck \<and> due timeout (nowOf cyc) (m (Name pod)) then 1 else 0)"
      by (simp add: checkPods_def stuckIn_def)
    then have b: "count_list (remediations (snd (checkPods timeout cyc m))) (Name pod) =
        count_list (remediations
          (snd (trackBlock restartBlock cyc timeout (nowOf cyc) pod stuck reason m))) (Name pod)"
      by (simp add: trackBlock_remediations[OF restartBlock_sole])
    from a b show ?thesis by blast
  qed
  from step cycle show ?thesis by blast
qed

theorem tracker_update_step_witness:
  "trackBlock restartBlock (stillCycle [podP1] (630 * Second)) (5 * Minute) (630 * Second)
      podP1 False [] [''p1'' \<mapsto> 330 * Second] = (Map.empty, [])
   \<and> trackBlock restartBlock (stillCycle [podP1] (330 * Second)) (5 * Minute) (330 * Second)
      podP1 True ''ImagePullBackOff'' Map.empty =
        ([''p1'' \<mapsto> 330 * Second], [LogProblemDetected ''p1'' ''ImagePullBackOff''])
   \<and> 5 * Minute \<le> time_Sub (630 * Second) (330 * Second)
   \<and> trackBlock restartBlock (stillCycle [podP1] (630 * Second)) (5 * Minute) (630 * Second)
      podP1 True ''ImagePullBackOff'' [''p1'' \<mapsto> 330 * Second] =
        (Map.empty,
         [LogRestarting ''p1'' (300 * Second) ''ImagePullBackOff'',
          LogPodDetails ''p1'' ''Pending'' ''default'' (300 * Second) (630 * Second),
          PodsDelete ''default'' ''p1'' 0 DeletePropagationForeground,
          LogRestartOK ''p1''])
   \<and> time_Sub (600 * Second) (330 * Second) < 5 * Minute
   \<and> trackBlock restartBlock (stillCycle [podP1] (600 * Second)) (5 * Minute) (600 * Second)
      podP1 True ''ImagePullBackOff'' [''p1'' \<mapsto> 330 * Second] =
        ([''p1'' \<mapsto> 330 * Second], [])
   \<and> time_Sub (630 * Second) (330 * Second) = 630 * Second - 330 * Second
   \<and> listsDistinct (stillCycle [podP1] (630 * Second))
   \<and> verdict shouldRestartPod (5 * Minute) (stillCycle [podP1] (630 * Second)) ''p1'' =
       Some (True, ''ImagePullBackOff'')
   \<and> fst (checkPods (5 * Minute) (stillCycle [podP1] (630 * Second))
        [''p1'' \<mapsto> 330 * Second]) ''p1'' = None
   \<and> count_list (remediations (snd (checkPods (5 * Minute) (stillCycle [podP1] (630 * Second))
        [''p1'' \<mapsto> 330 * Second]))) ''p1'' = 1"
proof -
  have n: "Name podP1 = ''p1''" "Phase podP1 = ''Pending''" "Namespace podP1 = ''default''"
    by (simp_all add: podP1_def PodPending_def)
  have s: "time_Sub (630 * Second) (330 * Second) = 300 * Second"
    "time_Sub (600 * Second) (330 * Second) = 270 * Second"
    by (simp_all add: time_Sub_def Second_def minDuration_def maxDuration_def)
  have r: "restartBlock (stillCycle [podP1] (630 * Second)) podP1 ''ImagePullBackOff'' =
     [PodsDelete ''default'' ''p1'' 0 DeletePropagationForeground, LogRestartOK ''p1'']"
    by (simp add: restartBlock_def restartPod_def stillCycle_def n)
  have le: "5 * Minute \<le> time_Sub (630 * Second) (330 * Second)"
    "time_Sub (600 * Second) (330 * Second) < 5 * Minute"
    "time_Sub (630 * Second) (330 * Second) = 630 * Second - 330 * Second"
    unfolding s by (simp_all add: Minute_def Second_def)
  have a: "trackBlock restartBlock (stillCycle [podP1] (630 * Second)) (5 * Minute)
      (630 * Second) podP1 False [] [''p1'' \<mapsto> 330 * Second] = (Map.empty, [])"
    using tracker_update_step
      [of False restartBlock "stillCycle [podP1] (630 * Second)" "5 * Minute" "630 * Second"
          podP1 "[]" "[''p1'' \<mapsto> 330 * Second]" "330 * Second"]
    by (simp add: n)
  have b: "trackBlock restartBlock (stillCycle [podP1] (330 * Second)) (5 * Minute)
      (330 * Second) podP1 True ''ImagePullBackOff'' Map.empty =
        ([''p1'' \<mapsto> 330 * Second], [LogProblemDetected ''p1'' ''ImagePullBackOff''])"
    using tracker_update_step
      [of True restartBlock "stillCycle [podP1] (330 * Second)" "5 * Minute" "330 * Second"
          podP1 "''ImagePullBackOff''" Map.empty "330 * Second"]
    by (simp add: n)
  have c: "trackBlock restartBlock (stillCycle [podP1] (630 * Second)) (5 * Minute)
      (630 * Second) podP1 True ''ImagePullBackOff'' [''p1'' \<mapsto> 330 * Second] =
        (Map.empty,
         [LogRestarting ''p1'' (300 * Second) ''ImagePullBackOff'',
          LogPodDetails ''p1'' ''Pending'' ''default'' (300 * Second) (630 * Second),
          PodsDelete ''default'' ''p1'' 0 DeletePropagationForeground,
          LogRestartOK ''p1''])"
    using le(1) tracker_update_step
      [of True restartBlock "stillCycle [podP1] (630 * Second)" "5 * Minute" "630 * Second"
          podP1 "''ImagePullBackOff''" "[''p1'' \<mapsto> 330 * Second]" "330 * Second"]
    by (simp add: n s r)
  have d: "trackBlock restartBlock (stillCycle [podP1] (600 * Second)) (5 * Minute)
      (600 * Second) podP1 True ''ImagePullBackOff'' [''p1'' \<mapsto> 330 * Second] =
        ([''p1'' \<mapsto> 330 * Second], [])"
    using le(2) tracker_update_step
      [of True restartBlock "stillCycle [podP1] (600 * Second)" "5 * Minute" "600 * Second"
          podP1 "''ImagePullBackOff''" "[''p1'' \<mapsto> 330 * Second]" "330 * Second"]
    by (simp add: n)
  have dv: "listsDistinct (stillCycle [podP1] (630 * Second))"
    "verdict shouldRestartPod (5 * Minute) (stillCycle [podP1] (630 * Second)) (Name podP1) =
       Some (True, ''ImagePullBackOff'')"
    using seconds_Sub[of 0 630]
    by (simp_all add: n stillCycle_fields podP1_verdict[where t = "630 * Second"]
        Minute_def Second_def)
  note t = tracker_update_step
      [of True restartBlock "stillCycle [podP1] (630 * Second)" "5 * Minute" "630 * Second"
          podP1 "''ImagePullBackOff''" "[''p1'' \<mapsto> 330 * Second]" "330 * Second"]
  note t6 = t[THEN conjunct2, THEN conjunct2, THEN conjunct2, THEN conjunct2, THEN conjunct2,
      rule_format, OF conjI, OF dv]
  have e: "fst (checkPods (5 * Minute) (stillCycle [podP1] (630 * Second))
        [''p1'' \<mapsto> 330 * Second]) ''p1'' = None"
    "count_list (remediations (snd (checkPods (5 * Minute) (stillCycle [podP1] (630 * Second))
        [''p1'' \<mapsto> 330 * Second]))) ''p1'' = 1"
    using t6 unfolding stillCycle_fields c n by simp_all
  note dv = dv[unfolded n]
  from a b c d le dv e show ?thesis by simp
qed

subsection \<open>C4\<close>

text \<open>
  C4, as stated, fails: the first cycle at which \<open>now - T0\<close> has reached the timeout
  issues no remediation when its listing fails. The record first seen at 330 s is still
  there after the cycle at 630 s, and the run has made no remediation call.
\<close>

theorem remediation_deferred_by_failed_listing:
  "fst (mainLoop (checkPods (5 * Minute))
         [stillCycle [podP1] (330 * Second), failedCycle (630 * Second)] Map.empty) ''p1'' =
     Some (330 * Second)
   \<and> 5 * Minute \<le> time_Sub (nowOf (failedCycle (630 * Second))) (330 * Second)
   \<and> remediations (snd (mainLoop (checkPods (5 * Minute))
         [stillCycle [podP1] (330 * Second), failedCycle (630 * Second)] Map.empty)) = []"
proof -
  have le: "5 * Minute \<le> time_Sub (630 * Second) (330 * Second)"
    using seconds_Sub[of 330 630] by (simp add: Minute_def Second_def)
  have 1: "checkPods (5 * Minute) (stillCycle [podP1] (330 * Second)) Map.empty =
     ([''p1'' \<mapsto> 330 * Second], [LogProblemDetected ''p1'' ''ImagePullBackOff''])"
    using podP1_detect[of 330 Map.empty] by simp
  have 2: "checkPods (5 * Minute) (failedCycle (630 * Second)) [''p1'' \<mapsto> 330 * Second] =
     ([''p1'' \<mapsto> 330 * Second], [LogListError ''context deadline exceeded''])"
    by (simp add: checkPods_def checkPodsWith_failed failedCycle_fields)
  from le 1 2 show ?thesis by (simp add: failedCycle_fields)
qed

text \<open>
  C4, amended. For a record first seen at \<open>T0\<close>: over cycles that do not list the pod
  or find it stuck with \<open>now - T0\<close> below the timeout, no remediation call is made for
  it and the record stays; at the first cycle that lists it, finds it stuck and has
  \<open>now - T0\<close> at or above the timeout, exactly one call is made, and after that cycle
  the tracker holds no record of the name, whatever the call returns.
\<close>

theorem one_remediation_per_episode:
  "m name = Some T0 \<Longrightarrow>
   list_all (holdsRecord shouldRestartPod timeout T0 name) before \<Longrightarrow>
   reachesTimeout shouldRestartPod timeout T0 name c \<Longrightarrow>
     count_list (remediations (snd (mainLoop (checkPods timeout) before m))) name = 0
     \<and> fst (mainLoop (checkPods timeout) before m) name = Some T0
     \<and> count_list (remediations (snd (mainLoop (checkPods timeout) (before @ [c]) m))) name = 1
     \<and> fst (mainLoop (checkPods timeout) (before @ [c]) m) name = None"
  using mainLoop_reachesTimeout[OF restartBlock_sole, where m = m and insp = shouldRestartPod]
  by (simp add: checkPods_def)

theorem one_remediation_per_episode_witness:
  "[''p1'' \<mapsto> 330 * Second] ''p1'' = Some (330 * Second)
   \<and> list_all (holdsRecord shouldRestartPod (5 * Minute) (330 * Second) ''p1'')
       (failedCycle (345 * Second) # scenarioA [360, 390, 420, 450, 480, 510, 540, 570, 600])
   \<and> reachesTimeout shouldRestartPod (5 * Minute) (330 * Second) ''p1''
       (refusedCycle [podP1] (630 * Second))
   \<and> count_list (remediations (snd (mainLoop (checkPods (5 * Minute))
       (failedCycle (345 * Second) # scenarioA [360, 390, 420, 450, 480, 510, 540, 570, 600])
       [''p1'' \<mapsto> 330 * Second]))) ''p1'' = 0
   \<and> count_list (remediations (snd (mainLoop (checkPods (5 * Minute))
       ((failedCycle (345 * Second) # scenarioA [360, 390, 420, 450, 480, 510, 540, 570, 600])
         @ [refusedCycle [podP1] (630 * Second)])
       [''p1'' \<mapsto> 330 * Second]))) ''p1'' = 1
   \<and> fst (mainLoop (checkPods (5 * Minute))
       ((failedCycle (345 * Second) # scenarioA [360, 390, 420, 450, 480, 510, 540, 570, 600])
         @ [refusedCycle [podP1] (630 * Second)])
       [''p1'' \<mapsto> 330 * Second]) ''p1'' = None
   \<and> podsDelete (refusedCycle [podP1] (630 * Second)) ''default'' ''p1'' = Some ''pods is forbidden''"
proof -
  have m: "[''p1'' \<mapsto> 330 * Second] ''p1'' = Some (330 * Second)" by simp
  have f: "holdsRecord shouldRestartPod (5 * Minute) (330 * Second) ''p1''
      (failedCycle (345 * Second))"
    by (simp add: holdsRecord_def failedCycle_fields verdict_listed[THEN iffD2])
  have h: "list_all (holdsRecord shouldRestartPod (5 * Minute) (330 * Second) ''p1'')
       (failedCycle (345 * Second) # scenarioA [360, 390, 420, 450, 480, 510, 540, 570, 600])"
    using podP1_holdsRecord[where j = 330] by (simp add: scenarioA_def f)
  have s: "stuckIn shouldRestartPod (5 * Minute) (refusedCycle [podP1] (630 * Second)) ''p1''"
    by (rule podP1_stuckIn[where k = 630]) (simp_all add: refusedCycle_fields)
  have le: "5 * Minute \<le> time_Sub (630 * Second) (330 * Second)"
    using seconds_Sub[of 330 630] by (simp add: Minute_def Second_def)
  have r: "reachesTimeout shouldRestartPod (5 * Minute) (330 * Second) ''p1''
       (refusedCycle [podP1] (630 * Second))"
    by (simp add: reachesTimeout_def refusedCycle_fields s le podP1_fields)
  have e: "podsDelete (refusedCycle [podP1] (630 * Second)) ''default'' ''p1'' =
      Some ''pods is forbidden''"
    by (simp add: refusedCycle_def)
  from one_remediation_per_episode
      [where m = "[''p1'' \<mapsto> 330 * Second]" and name = "''p1''", OF m h r] m h r e
  show ?thesis by blast
qed

subsection \<open>C5\<close>

text \<open>
  C5, as stated, fails: a record is kept while its pod is not listed. After a cycle that
  lists nothing, the record first seen at 330 s is still there at 660 s, with the timeout
  of five minutes passed and no verdict "stuck" in that cycle.
\<close>

theorem record_outlives_timeout_when_unlisted:
  "fst (mainLoop (checkPods (5 * Minute))
         [stillCycle [podP1] (330 * Second), stillCycle [] (660 * Second)] Map.empty) ''p1'' =
     Some (330 * Second)
   \<and> \<not> stuckIn shouldRestartPod (5 * Minute) (stillCycle [] (660 * Second)) ''p1''
   \<and> \<not> time_Sub (nowOf (stillCycle [] (660 * Second))) (330 * Second) < 5 * Minute"
proof -
  have le: "\<not> time_Sub (660 * Second) (330 * Second) < 5 * Minute"
    using seconds_Sub[of 330 660] by (simp add: Minute_def Second_def)
  have 1: "checkPods (5 * Minute) (stillCycle [podP1] (330 * Second)) Map.empty =
     ([''p1'' \<mapsto> 330 * Second], [LogProblemDetected ''p1'' ''ImagePullBackOff''])"
    using podP1_detect[of 330 Map.empty] by simp
  have 2: "checkPods (5 * Minute) (stillCycle [] (660 * Second)) [''p1'' \<mapsto> 330 * Second] =
     ([''p1'' \<mapsto> 330 * Second], [])"
    by (simp add: checkPods_def checkPodsWith_listed[where pods = "[]"] stillCycle_fields)
  have 3: "\<not> stuckIn shouldRestartPod (5 * Minute) (stillCycle [] (660 * Second)) ''p1''"
    by (simp add: stuckIn_def verdict_def stillCycle_fields)
  from le 1 2 3 show ?thesis by (simp add: stillCycle_fields)
qed

text \<open>
  C5, amended. For a pod that the cycle lists (each name once) and a positive timeout:
  after the cycle the pod has a record if and only if the inspector found it stuck in this
  cycle and the time since the first-seen time of its episode is below the timeout; and
  the record, when there is one, holds that first-seen time.
\<close>

theorem record_iff_stuck_below_timeout:
  "listsDistinct cyc \<Longrightarrow> verdict shouldRestartPod timeout cyc name = Some (stuck, reason) \<Longrightarrow>
   0 < timeout \<Longrightarrow>
     (fst (checkPods timeout cyc m) name \<noteq> None) =
        (stuck \<and> time_Sub (nowOf cyc) (firstSeenAt m name (nowOf cyc)) < timeout)
     \<and> (fst (checkPods timeout cyc m) name \<noteq> None) =
        (fst (checkPods timeout cyc m) name = Some (firstSeenAt m name (nowOf cyc)))"
proof -
  assume d: "listsDistinct cyc"
    and v: "verdict shouldRestartPod timeout cyc name = Some (stuck, reason)"
    and t: "0 < timeout"
  from checkPodsWith_record[OF d, of shouldRestartPod restartBlock timeout m name] v
  have "fst (checkPods timeout cyc m) name = updateRecord timeout (nowOf cyc) stuck (m name)"
    by (simp add: checkPods_def)
  with t show ?thesis
    by (auto simp: updateRecord_def firstSeenAt_def time_Sub_refl split: option.splits)
qed

theorem record_iff_stuck_below_timeout_witness:
  "listsDistinct (stillCycle [podP1] (600 * Second))
   \<and> verdict shouldRestartPod (5 * Minute) (stillCycle [podP1] (600 * Second)) ''p1'' =
       Some (True, ''ImagePullBackOff'')
   \<and> 0 < 5 * Minute
   \<and> time_Sub (nowOf (stillCycle [podP1] (600 * Second)))
        (firstSeenAt [''p1'' \<mapsto> 330 * Second] ''p1'' (nowOf (stillCycle [podP1] (600 * Second))))
       < 5 * Minute
   \<and> fst (checkPods (5 * Minute) (stillCycle [podP1] (600 * Second)) [''p1'' \<mapsto> 330 * Second])
        ''p1'' = Some (330 * Second)"
proof -
  have d: "listsDistinct (stillCycle [podP1] (600 * Second))"
    by (simp add: stillCycle_fields)
  have s0: "time_Sub (600 * Second) 0 = 600 * Second"
    using seconds_Sub[of 0 600] by simp
  have gt: "5 * Minute < time_Sub (600 * Second) 0"
    unfolding s0 by (simp add: Minute_def Second_def)
  have v: "verdict shouldRestartPod (5 * Minute) (stillCycle [podP1] (600 * Second)) ''p1'' =
       Some (True, ''ImagePullBackOff'')"
    using gt by (simp add: podP1_verdict[where t = "600 * Second"] stillCycle_fields)
  have p: "0 < 5 * Minute" by (simp add: Minute_def Second_def)
  have f: "firstSeenAt [''p1'' \<mapsto> 330 * Second] ''p1'' (nowOf (stillCycle [podP1] (600 * Second)))
      = 330 * Second"
    by (simp add: firstSeenAt_def)
  have lt: "time_Sub (nowOf (stillCycle [podP1] (600 * Second))) (330 * Second) < 5 * Minute"
    using seconds_Sub[of 330 600] by (simp add: stillCycle_fields Minute_def Second_def)
  note t = record_iff_stuck_below_timeout[OF d v p, of "[''p1'' \<mapsto> 330 * Second]"]
  have ne: "fst (checkPods (5 * Minute) (stillCycle [podP1] (600 * Second))
      [''p1'' \<mapsto> 330 * Second]) ''p1'' \<noteq> None"
    using t[THEN conjunct1] lt unfolding f by blast
  then have "fst (checkPods (5 * Minute) (stillCycle [podP1] (600 * Second))
      [''p1'' \<mapsto> 330 * Second]) ''p1'' = Some (330 * Second)"
    using t[THEN conjunct2] unfolding f by blast
  with d v p lt show ?thesis unfolding f by blast
qed

subsection \<open>C6\<close>

text \<open>
  C6, as stated, fails: the inspector reads the clock. The same pod and the same timeout
  give "not stuck" at one call and "stuck" at the next, when the clock passes the
  timeout in between.
\<close>

theorem classification_changes_with_clock:
  "fst (shouldRestartPod podP1 (5 * Minute) tickingClock 0) = (False, '''')
   \<and> fst (shouldRestartPod podP1 (5 * Minute) tickingClock
           (snd (shouldRestartPod podP1 (5 * Minute) tickingClock 0))) = (True, ''ImagePullBackOff'')"
  by (simp add: shouldRestartPod_def podP1_def waitingContainer_def waitingBlock_def
      runningBlock_def index_bool_def reasonsToWatch_def time_Since_def time_Now_def
      tickingClock_def time_Sub_def minDuration_def maxDuration_def Minute_def Second_def
      PodPending_def)

text \<open>
  C6, amended. The verdict is a function of the pod, the timeout and the clock readings
  taken during the call: two calls that are given the same pod and timeout, and whose
  readings agree one by one for as many readings as the first call takes, return the same
  pair and take the same number of readings. Nothing is asked of the readings that the
  call does not take; a call that takes none returns the same pair under every clock.
  Both inspectors.
\<close>

theorem same_readings_same_verdict:
  "((\<forall>i. i < snd (shouldRestartPod pod timeout clk1 n1) - n1 \<longrightarrow> clk1 (n1 + i) = clk2 (n2 + i)) \<longrightarrow>
      fst (shouldRestartPod pod timeout clk1 n1) = fst (shouldRestartPod pod timeout clk2 n2)
      \<and> snd (shouldRestartPod pod timeout clk1 n1) - n1 =
          snd (shouldRestartPod pod timeout clk2 n2) - n2)
   \<and> ((\<forall>i. i < snd (isStuckInContainerCreating pod timeout clk1 n1) - n1 \<longrightarrow>
          clk1 (n1 + i) = clk2 (n2 + i)) \<longrightarrow>
      fst (isStuckInContainerCreating pod timeout clk1 n1) =
        fst (isStuckInContainerCreating pod timeout clk2 n2)
      \<and> snd (isStuckInContainerCreating pod timeout clk1 n1) - n1 =
          snd (isStuckInContainerCreating pod timeout clk2 n2) - n2)"
proof (intro conjI impI)
  assume a: "\<forall>i. i < snd (shouldRestartPod pod timeout clk1 n1) - n1 \<longrightarrow>
               clk1 (n1 + i) = clk2 (n2 + i)"
  from shouldRestartPod_same_readings[OF a]
  show "fst (shouldRestartPod pod timeout clk1 n1) = fst (shouldRestartPod pod timeout clk2 n2)"
    and "snd (shouldRestartPod pod timeout clk1 n1) - n1 =
          snd (shouldRestartPod pod timeout clk2 n2) - n2"
    by simp_all
next
  assume b: "\<forall>i. i < snd (isStuckInContainerCreating pod timeout clk1 n1) - n1 \<longrightarrow>
               clk1 (n1 + i) = clk2 (n2 + i)"
  then have "\<forall>i. i < snd (creatingLoop pod timeout clk1 (ContainerStatuses pod) n1) - n1 \<longrightarrow>
               clk1 (n1 + i) = clk2 (n2 + i)"
    by (simp add: isStuckInContainerCreating_def)
  from creatingLoop_same_readings[OF this]
  show "fst (isStuckInContainerCreating pod timeout clk1 n1) =
        fst (isStuckInContainerCreating pod timeout clk2 n2)"
    and "snd (isStuckInContainerCreating pod timeout clk1 n1) - n1 =
          snd (isStuckInContainerCreating pod timeout clk2 n2) - n2"
    by (simp_all add: isStuckInContainerCreating_def)
qed

theorem same_readings_same_verdict_witness:
  "snd (shouldRestartPod podP1 (5 * Minute) tickingClock 1) - 1 = 1
   \<and> tickingClock 1 = oneReadingClock 2
   \<and> tickingClock 2 \<noteq> oneReadingClock 3
   \<and> fst (shouldRestartPod podP1 (5 * Minute) tickingClock 1) =
       fst (shouldRestartPod podP1 (5 * Minute) oneReadingClock 2)
   \<and> fst (shouldRestartPod podP1 (5 * Minute) oneReadingClock 2) = (True, ''ImagePullBackOff'')
   \<and> snd (shouldRestartPod podP1 (5 * Minute) oneReadingClock 2) - 2 = 1
   \<and> fst (shouldRestartPod podInitializing (5 * Minute) tickingClock 0) =
       fst (shouldRestartPod podInitializing (5 * Minute) tickingClock 7)
   \<and> snd (isStuckInContainerCreating podFailedCreating (5 * Minute) tickingClock 1) - 1 = 1
   \<and> fst (isStuckInContainerCreating podFailedCreating (5 * Minute) oneReadingClock 2) =
       (True, ''ContainerCreating'')"
proof -
  have t: "tickingClock 1 = oneReadingClock 2" "tickingClock 2 \<noteq> oneReadingClock 3"
    by (simp_all add: tickingClock_def oneReadingClock_def Second_def)
  have rd: "snd (shouldRestartPod podP1 (5 * Minute) tickingClock 1) - 1 = 1"
    unfolding podP1_at_301 by simp
  have h1: "\<forall>i. i < snd (shouldRestartPod podP1 (5 * Minute) tickingClock 1) - 1 \<longrightarrow>
              tickingClock (1 + i) = oneReadingClock (2 + i)"
    unfolding rd using t(1) by simp
  note new = same_readings_same_verdict[THEN conjunct1, THEN mp]
  note old = same_readings_same_verdict[THEN conjunct2, THEN mp]
  from new[OF h1] have a:
    "fst (shouldRestartPod podP1 (5 * Minute) tickingClock 1) =
       fst (shouldRestartPod podP1 (5 * Minute) oneReadingClock 2)"
    "snd (shouldRestartPod podP1 (5 * Minute) tickingClock 1) - 1 =
       snd (shouldRestartPod podP1 (5 * Minute) oneReadingClock 2) - 2"
    by simp_all
  have h2: "\<forall>i. i < snd (shouldRestartPod podInitializing (5 * Minute) tickingClock 0) - 0 \<longrightarrow>
              tickingClock (0 + i) = tickingClock (7 + i)"
    by (simp add: podInitializing_reads_nothing)
  from new[OF h2] have b:
    "fst (shouldRestartPod podInitializing (5 * Minute) tickingClock 0) =
       fst (shouldRestartPod podInitializing (5 * Minute) tickingClock 7)"
    by simp
  have rd': "snd (isStuckInContainerCreating podFailedCreating (5 * Minute) tickingClock 1) - 1 = 1"
    unfolding podFailedCreating_at_301 by simp
  have h3: "\<forall>i. i < snd (isStuckInContainerCreating podFailedCreating (5 * Minute) tickingClock 1) - 1 \<longrightarrow>
              tickingClock (1 + i) = oneReadingClock (2 + i)"
    unfolding rd' using t(1) by simp
  from old[OF h3] have c:
    "fst (isStuckInContainerCreating podFailedCreating (5 * Minute) tickingClock 1) =
       fst (isStuckInContainerCreating podFailedCreating (5 * Minute) oneReadingClock 2)"
    by simp
  have v: "fst (shouldRestartPod podP1 (5 * Minute) oneReadingClock 2) = (True, ''ImagePullBackOff'')"
    unfolding a(1)[symmetric] podP1_at_301 by simp
  have w: "fst (isStuckInContainerCreating podFailedCreating (5 * Minute) oneReadingClock 2) =
       (True, ''ContainerCreating'')"
    unfolding c[symmetric] podFailedCreating_at_301 by simp
  have k: "snd (shouldRestartPod podP1 (5 * Minute) oneReadingClock 2) - 2 = 1"
    unfolding a(2)[symmetric] by (rule rd)
  from a(1) b rd rd' t v w k show ?thesis
    by blast
qed

subsection \<open>C7\<close>

text \<open>
  C7. When the listing call fails, the body of the cycle is skipped: the map of records
  after the cycle is the map before it (no record created, deleted or changed) and the
  only effect is the line that logs the error. Over any run of cycles whose listings
  fail, the map stays what it was and no remediation is issued. Both revisions of
  \<open>checkPods\<close>.
\<close>

theorem listing_failure_keeps_records:
  "(podsList cyc = Inl err \<longrightarrow>
      checkPods timeout cyc m = (m, [LogListError err])
      \<and> checkPods_notify timeout cyc m = (m, [LogListError err]))
   \<and> (list_all listingFails cycs \<longrightarrow>
      fst (mainLoop (checkPods timeout) cycs m) = m
      \<and> remediations (snd (mainLoop (checkPods timeout) cycs m)) = []
      \<and> fst (mainLoop (checkPods_notify timeout) cycs m) = m
      \<and> remediations (snd (mainLoop (checkPods_notify timeout) cycs m)) = [])"
proof -
  have 1: "checkPods timeout cyc m = (m, [LogListError err])
      \<and> checkPods_notify timeout cyc m = (m, [LogListError err])"
    if "podsList cyc = Inl err"
    using that by (simp add: checkPods_def checkPods_notify_def checkPodsWith_failed)
  have 2: "fst (mainLoop (checkPods timeout) cycs m) = m
      \<and> remediations (snd (mainLoop (checkPods timeout) cycs m)) = []
      \<and> fst (mainLoop (checkPods_notify timeout) cycs m) = m
      \<and> remediations (snd (mainLoop (checkPods_notify timeout) cycs m)) = []"
    if f: "list_all listingFails cycs"
    using mainLoop_failing[OF f, of shouldRestartPod restartBlock timeout m]
      mainLoop_failing[OF f, of isStuckInContainerCreating notifyBlock timeout m]
    by (simp add: checkPods_def checkPods_notify_def)
  from 1 2 show ?thesis by blast
qed

theorem listing_failure_keeps_records_witness:
  "podsList (failedCycle (630 * Second)) = Inl ''context deadline exceeded''
   \<and> checkPods (5 * Minute) (failedCycle (630 * Second)) [''p1'' \<mapsto> 330 * Second] =
       ([''p1'' \<mapsto> 330 * Second], [LogListError ''context deadline exceeded''])
   \<and> checkPods_notify (5 * Minute) (failedCycle (630 * Second)) [''p1'' \<mapsto> 330 * Second] =
       ([''p1'' \<mapsto> 330 * Second], [LogListError ''context deadline exceeded''])
   \<and> list_all listingFails [failedCycle (630 * Second), failedCycle (660 * Second)]
   \<and> fst (mainLoop (checkPods (5 * Minute))
        [failedCycle (630 * Second), failedCycle (660 * Second)] [''p1'' \<mapsto> 330 * Second]) =
       [''p1'' \<mapsto> 330 * Second]"
proof -
  have l: "podsList (failedCycle (630 * Second)) = Inl ''context deadline exceeded''"
    by (simp add: failedCycle_def)
  have f: "list_all listingFails [failedCycle (630 * Second), failedCycle (660 * Second)]"
    by (simp add: listingFails_def failedCycle_def)
  note t = listing_failure_keeps_records
    [of "failedCycle (630 * Second)" "''context deadline exceeded''" "5 * Minute"
        "[''p1'' \<mapsto> 330 * Second]" "[failedCycle (630 * Second), failedCycle (660 * Second)]"]
  from t[THEN conjunct1, rule_format, OF l] t[THEN conjunct2, rule_format, OF f] l f
  show ?thesis by blast
qed

subsection \<open>C8\<close>

text \<open>
  C8, as stated, fails at two kinds of value. A positive integer string beyond
  \<open>int64\<close> does not give that many minutes: \<open>Atoi\<close> reports a range error and the
  default is used, with a warning. And a variable set to the empty string, which is not
  numeric, gives the default without a warning: \<open>getEnv\<close> takes it for unset.
\<close>

theorem config_out_of_range_and_empty:
  "numeric ''99999999999999999999'' \<and> 0 < intValue ''99999999999999999999''
   \<and> getPendingTimeout [''PENDING_TIMEOUT'' \<mapsto> ''99999999999999999999''] =
       (5 * Minute, [LogInvalidPendingTimeout ''99999999999999999999''])
   \<and> \<not> numeric ''''
   \<and> getCheckInterval [''CHECK_INTERVAL'' \<mapsto> ''''] = (30 * Second, [])"
  by (simp add: getPendingTimeout_def getCheckInterval_def getEnv_def os_Getenv_def Atoi_def
      ParseInt_def ParseUint_def isDigit_def digitVal_def wrap64_def Minute_def Second_def
      numeric_def digitsOf_def intValue_def decimalValue_def)

text \<open>
  C8, amended. For \<open>PENDING_TIMEOUT\<close> (minutes, default 5) and \<open>CHECK_INTERVAL\<close>
  (seconds, default 30): an unset or empty value gives the default and no warning; a
  numeric string with a positive value whose duration fits \<open>int64\<close> gives that many
  minutes (seconds) and no warning; a non-empty value that is not numeric, or is not
  positive, or exceeds \<open>int64\<close>, gives the default with a warning. (Positive values
  within \<open>int64\<close> whose duration does not fit it are left out here.)
\<close>

theorem config_from_environment:
  "(env ''PENDING_TIMEOUT'' = None \<or> env ''PENDING_TIMEOUT'' = Some '''' \<longrightarrow>
      getPendingTimeout env = (5 * Minute, []))
   \<and> (env ''PENDING_TIMEOUT'' = Some s \<and> numeric s \<and> 0 < intValue s
        \<and> intValue s * Minute \<le> maxDuration \<longrightarrow>
      getPendingTimeout env = (intValue s * Minute, []))
   \<and> (env ''PENDING_TIMEOUT'' = Some s \<and> s \<noteq> ''''
        \<and> (\<not> numeric s \<or> intValue s \<le> 0 \<or> 2 ^ 63 - 1 < intValue s) \<longrightarrow>
      getPendingTimeout env = (5 * Minute, [LogInvalidPendingTimeout s]))
   \<and> (env ''CHECK_INTERVAL'' = None \<or> env ''CHECK_INTERVAL'' = Some '''' \<longrightarrow>
      getCheckInterval env = (30 * Second, []))
   \<and> (env ''CHECK_INTERVAL'' = Some s \<and> numeric s \<and> 0 < intValue s
        \<and> intValue s * Second \<le> maxDuration \<longrightarrow>
      getCheckInterval env = (intValue s * Second, []))
   \<and> (env ''CHECK_INTERVAL'' = Some s \<and> s \<noteq> ''''
        \<and> (\<not> numeric s \<or> intValue s \<le> 0 \<or> 2 ^ 63 - 1 < intValue s) \<longrightarrow>
      getCheckInterval env = (30 * Second, [LogInvalidCheckInterval s]))"
proof -
  have w5: "wrap64 (5 * Minute) = 5 * Minute" and w30: "wrap64 (30 * Second) = 30 * Second"
    by (simp_all add: wrap64_def Minute_def Second_def)
  have p1: "getPendingTimeout env = (5 * Minute, [])"
    if "env ''PENDING_TIMEOUT'' = None \<or> env ''PENDING_TIMEOUT'' = Some ''''"
    using getEnv_unset[of env "''PENDING_TIMEOUT''" "''5''", OF that]
    by (simp add: getPendingTimeout_def Atoi_5 w5)
  have c1: "getCheckInterval env = (30 * Second, [])"
    if "env ''CHECK_INTERVAL'' = None \<or> env ''CHECK_INTERVAL'' = Some ''''"
    using getEnv_unset[of env "''CHECK_INTERVAL''" "''30''", OF that]
    by (simp add: getCheckInterval_def Atoi_30 w30)
  have p2: "getPendingTimeout env = (intValue s * Minute, [])"
    if e: "env ''PENDING_TIMEOUT'' = Some s" and n: "numeric s" and pos: "0 < intValue s"
      and fit: "intValue s * Minute \<le> maxDuration"
  proof -
    from pos fit have r: "- (2 ^ 63) \<le> intValue s" "intValue s \<le> 2 ^ 63 - 1"
      by (simp_all add: Minute_def Second_def maxDuration_def)
    from pos fit have "wrap64 (intValue s * Minute) = intValue s * Minute"
      by (intro wrap64_id) (simp_all add: Minute_def Second_def maxDuration_def)
    with r pos show ?thesis
      using getEnv_set[of env "''PENDING_TIMEOUT''" s "''5''", OF e numeric_nonempty[OF n]]
      by (simp add: getPendingTimeout_def Atoi_numeric[OF n])
  qed
  have c2: "getCheckInterval env = (intValue s * Second, [])"
    if e: "env ''CHECK_INTERVAL'' = Some s" and n: "numeric s" and pos: "0 < intValue s"
      and fit: "intValue s * Second \<le> maxDuration"
  proof -
    from pos fit have r: "- (2 ^ 63) \<le> intValue s" "intValue s \<le> 2 ^ 63 - 1"
      by (simp_all add: Second_def maxDuration_def)
    from pos fit have "wrap64 (intValue s * Second) = intValue s * Second"
      by (intro wrap64_id) (simp_all add: Second_def maxDuration_def)
    with r pos show ?thesis
      using getEnv_set[of env "''CHECK_INTERVAL''" s "''30''", OF e numeric_nonempty[OF n]]
      by (simp add: getCheckInterval_def Atoi_numeric[OF n])
  qed
  have p3: "getPendingTimeout env = (5 * Minute, [LogInvalidPendingTimeout s])"
    if e: "env ''PENDING_TIMEOUT'' = Some s" and ne: "s \<noteq> ''''"
      and bad: "\<not> numeric s \<or> intValue s \<le> 0 \<or> 2 ^ 63 - 1 < intValue s"
    using getEnv_set[of env "''PENDING_TIMEOUT''" s "''5''", OF e ne] Atoi_rejects[OF bad]
    by (auto simp: getPendingTimeout_def w5 split: sum.splits)
  have c3: "getCheckInterval env = (30 * Second, [LogInvalidCheckInterval s])"
    if e: "env ''CHECK_INTERVAL'' = Some s" and ne: "s \<noteq> ''''"
      and bad: "\<not> numeric s \<or> intValue s \<le> 0 \<or> 2 ^ 63 - 1 < intValue s"
    using getEnv_set[of env "''CHECK_INTERVAL''" s "''30''", OF e ne] Atoi_rejects[OF bad]
    by (auto simp: getCheckInterval_def w30 split: sum.splits)
  from p1 p2 p3 c1 c2 c3 show ?thesis by blast
qed

theorem config_from_environment_witness:
  "getPendingTimeout Map.empty = (5 * Minute, [])
   \<and> numeric ''10'' \<and> 0 < intValue ''10'' \<and> intValue ''10'' * Minute \<le> maxDuration
   \<and> getPendingTimeout [''PENDING_TIMEOUT'' \<mapsto> ''10''] = (10 * Minute, [])
   \<and> \<not> numeric ''abc''
   \<and> getPendingTimeout [''PENDING_TIMEOUT'' \<mapsto> ''abc''] =
       (5 * Minute, [LogInvalidPendingTimeout ''abc''])
   \<and> getCheckInterval [''PENDING_TIMEOUT'' \<mapsto> ''10''] = (30 * Second, [])
   \<and> getCheckInterval [''CHECK_INTERVAL'' \<mapsto> ''45''] = (45 * Second, [])
   \<and> intValue ''-5'' \<le> 0
   \<and> getCheckInterval [''CHECK_INTERVAL'' \<mapsto> ''-5''] =
       (30 * Second, [LogInvalidCheckInterval ''-5''])"
proof -
  have f: "intValue ''10'' * Minute \<le> maxDuration" "intValue ''45'' * Second \<le> maxDuration"
    by (simp_all add: numeric_examples Minute_def Second_def maxDuration_def)
  have 1: "getPendingTimeout Map.empty = (5 * Minute, [])"
    using config_from_environment[of Map.empty "''''"] by simp
  have 2: "getPendingTimeout [''PENDING_TIMEOUT'' \<mapsto> ''10''] = (10 * Minute, [])"
    using config_from_environment[of "[''PENDING_TIMEOUT'' \<mapsto> ''10'']" "''10''"] f
    by (simp add: numeric_examples)
  have 3: "getPendingTimeout [''PENDING_TIMEOUT'' \<mapsto> ''abc''] =
       (5 * Minute, [LogInvalidPendingTimeout ''abc''])"
    using config_from_environment[of "[''PENDING_TIMEOUT'' \<mapsto> ''abc'']" "''abc''"]
    by (simp add: numeric_examples)
  have 4: "getCheckInterval [''PENDING_TIMEOUT'' \<mapsto> ''10''] = (30 * Second, [])"
    using config_from_environment[of "[''PENDING_TIMEOUT'' \<mapsto> ''10'']" "''10''"]
    by simp
  have 5: "getCheckInterval [''CHECK_INTERVAL'' \<mapsto> ''45''] = (45 * Second, [])"
    using config_from_environment[of "[''CHECK_INTERVAL'' \<mapsto> ''45'']" "''45''"] f
    by (simp add: numeric_examples)
  have 6: "getCheckInterval [''CHECK_INTERVAL'' \<mapsto> ''-5''] =
       (30 * Second, [LogInvalidCheckInterval ''-5''])"
    using config_from_environment[of "[''CHECK_INTERVAL'' \<mapsto> ''-5'']" "''-5''"]
    by (simp add: numeric_examples)
  from 1 2 3 4 5 6 f show ?thesis by (simp add: numeric_examples)
qed

subsection \<open>C9\<close>



subsection \<open>C10\<close>

text \<open>
  C10. The record is kept under the pod's name alone. For two pods of the same name,
  whatever their namespaces, the loop body leaves the same map; it reads and writes the
  one record of that name and no other; and when both are in one listing, the second
  update works on the record the first one left.
\<close>

theorem records_keyed_by_name:
  "Name p = Name q \<Longrightarrow>
     fst (trackBlock rem cyc timeout now p should reason m) =
       fst (trackBlock rem cyc timeout now q should reason m)
     \<and> fst (trackBlock rem cyc timeout now p should reason m) (Name q) =
         updateRecord timeout now should (m (Name p))
     \<and> (\<forall>k. k \<noteq> Name p \<longrightarrow> fst (trackBlock rem cyc timeout now p should reason m) k = m k)
     \<and> fst (podsLoop insp rem timeout cyc now [p, q] n m) (Name p) =
         updateRecord timeout now
           (fst (fst (insp q timeout (clockAt cyc) (snd (insp p timeout (clockAt cyc) n)))))
           (updateRecord timeout now (fst (fst (insp p timeout (clockAt cyc) n))) (m (Name p)))"
proof -
  assume e: "Name p = Name q"
  have 1: "fst (trackBlock rem cyc timeout now p should reason m) =
       fst (trackBlock rem cyc timeout now q should reason m)"
    using e by (simp add: trackBlock_def split: option.splits)
  have 2: "fst (trackBlock rem cyc timeout now p should reason m) (Name q) =
         updateRecord timeout now should (m (Name p))"
    using e trackBlock_own[of rem cyc timeout now p should reason m] by simp
  have 3: "\<forall>k. k \<noteq> Name p \<longrightarrow> fst (trackBlock rem cyc timeout now p should reason m) k = m k"
    by (simp add: trackBlock_other)
  obtain s1 r1 n1 where i1: "insp p timeout (clockAt cyc) n = ((s1, r1), n1)"
    by (metis prod.exhaust)
  obtain s2 r2 n2 where i2: "insp q timeout (clockAt cyc) n1 = ((s2, r2), n2)"
    by (metis prod.exhaust)
  obtain m1 e1 where t1: "trackBlock rem cyc timeout now p s1 r1 m = (m1, e1)"
    by (metis prod.exhaust)
  obtain m2 e2 where t2: "trackBlock rem cyc timeout now q s2 r2 m1 = (m2, e2)"
    by (metis prod.exhaust)
  from trackBlock_own[of rem cyc timeout now p s1 r1 m] t1
  have a: "m1 (Name p) = updateRecord timeout now s1 (m (Name p))" by simp
  from trackBlock_own[of rem cyc timeout now q s2 r2 m1] t2 e
  have b: "m2 (Name p) = updateRecord timeout now s2 (m1 (Name p))" by simp
  have 4: "fst (podsLoop insp rem timeout cyc now [p, q] n m) (Name p) =
         updateRecord timeout now
           (fst (fst (insp q timeout (clockAt cyc) (snd (insp p timeout (clockAt cyc) n)))))
           (updateRecord timeout now (fst (fst (insp p timeout (clockAt cyc) n))) (m (Name p)))"
    using i1 i2 t1 t2 a b by simp
  from 1 2 3 4 show ?thesis by blast
qed

theorem records_keyed_by_name_witness:
  "Name podP1 = Name (podInNamespace ''staging'')
   \<and> Namespace podP1 \<noteq> Namespace (podInNamespace ''staging'')
   \<and> fst (trackBlock restartBlock (stillCycle [] (330 * Second)) (5 * Minute) (330 * Second)
          podP1 True ''ImagePullBackOff'' Map.empty) =
       fst (trackBlock restartBlock (stillCycle [] (330 * Second)) (5 * Minute) (330 * Second)
          (podInNamespace ''staging'') True ''ImagePullBackOff'' Map.empty)
   \<and> fst (trackBlock restartBlock (stillCycle [] (330 * Second)) (5 * Minute) (330 * Second)
          podP1 True ''ImagePullBackOff'' Map.empty) ''p1'' = Some (330 * Second)
   \<and> fst (trackBlock restartBlock (stillCycle [] (330 * Second)) (5 * Minute) (330 * Second)
          podP1 True ''ImagePullBackOff'' [''p2'' \<mapsto> 7]) ''p2'' = Some 7
   \<and> fst (podsLoop shouldRestartPod restartBlock (5 * Minute)
            (stillCycle [podP1, podInNamespace ''staging''] (630 * Second)) (630 * Second)
            [podP1, podInNamespace ''staging''] (Suc 0) [''p1'' \<mapsto> 330 * Second]) ''p1'' =
       Some (630 * Second)"
proof -
  have e: "Name podP1 = Name (podInNamespace ''staging'')"
    by (simp add: podInNamespace_fields podP1_fields)
  note k = records_keyed_by_name[OF e]
  have ne: "Namespace podP1 \<noteq> Namespace (podInNamespace ''staging'')"
    by (simp add: podInNamespace_fields podP1_fields)
  have u1: "updateRecord (5 * Minute) (330 * Second) True None = Some (330 * Second)"
    by (simp add: updateRecord_def)
  have c: "clockAt (stillCycle [podP1, podInNamespace ''staging''] (630 * Second)) =
      (\<lambda>i. 630 * Second)"
    by (simp add: stillCycle_def)
  have s: "time_Sub (630 * Second) 0 = 630 * Second"
    "time_Sub (630 * Second) (330 * Second) = 300 * Second"
    using seconds_Sub[of 0 630] seconds_Sub[of 330 630] by simp_all
  have le: "5 * Minute \<le> time_Sub (630 * Second) (330 * Second)"
    unfolding s by (simp add: Minute_def Second_def)
  have u2: "updateRecord (5 * Minute) (630 * Second) True
      (updateRecord (5 * Minute) (630 * Second) True (Some (330 * Second))) = Some (630 * Second)"
    by (simp add: updateRecord_def le)
  have st: "5 * Minute < 630 * Second" by (simp add: Minute_def Second_def)
  note k1 = k[of restartBlock "stillCycle [] (330 * Second)" "5 * Minute" "330 * Second" True
        "''ImagePullBackOff''" Map.empty shouldRestartPod 0]
  have 1: "fst (trackBlock restartBlock (stillCycle [] (330 * Second)) (5 * Minute) (330 * Second)
          podP1 True ''ImagePullBackOff'' Map.empty) =
       fst (trackBlock restartBlock (stillCycle [] (330 * Second)) (5 * Minute) (330 * Second)
          (podInNamespace ''staging'') True ''ImagePullBackOff'' Map.empty)"
    using k1 by (rule conjunct1)
  have 2: "fst (trackBlock restartBlock (stillCycle [] (330 * Second)) (5 * Minute) (330 * Second)
          podP1 True ''ImagePullBackOff'' Map.empty) ''p1'' = Some (330 * Second)"
    using k1[THEN conjunct2, THEN conjunct1] by (simp add: podInNamespace_fields u1)
  note k3 = k[of restartBlock "stillCycle [] (330 * Second)" "5 * Minute" "330 * Second" True
        "''ImagePullBackOff''" "[''p2'' \<mapsto> 7]" shouldRestartPod 0]
  have 3: "fst (trackBlock restartBlock (stillCycle [] (330 * Second)) (5 * Minute) (330 * Second)
          podP1 True ''ImagePullBackOff'' [''p2'' \<mapsto> 7]) ''p2'' = Some 7"
    using k3[THEN conjunct2, THEN conjunct2, THEN conjunct1, rule_format, of "''p2''"]
    by (simp add: podP1_fields)
  note k4 = k[of restartBlock "stillCycle [podP1, podInNamespace ''staging''] (630 * Second)"
        "5 * Minute" "630 * Second" True "''ImagePullBackOff''" "[''p1'' \<mapsto> 330 * Second]"
        shouldRestartPod "Suc 0"]
  have 4: "fst (podsLoop shouldRestartPod restartBlock (5 * Minute)
            (stillCycle [podP1, podInNamespace ''staging''] (630 * Second)) (630 * Second)
            [podP1, podInNamespace ''staging''] (Suc 0) [''p1'' \<mapsto> 330 * Second]) ''p1'' =
       Some (630 * Second)"
    using k4[THEN conjunct2, THEN conjunct2, THEN conjunct2] st
    by (simp add: c podInNamespace_inspect podP1_inspect podP1_fields s u2)
  from e ne 1 2 3 4 show ?thesis by blast
qed

end
